theory Spec2Isabelle
  imports Main "HOL-Library.Sublist"
begin

section \<open>Go library functions used by the analyser\<close>

text \<open>
  A Go \<open>string\<close> is a byte sequence and the scanner reads it byte by byte
  (\<open>rune(line[i])\<close>), so a string is a \<open>char list\<close> of 8-bit characters and
  every rune the scanner classifies lies in Latin-1.  The three classifiers
  below are \<open>unicode.IsSpace\<close>, \<open>unicode.IsDigit\<close> and \<open>unicode.IsLetter\<close>
  restricted to that range, as the Go library documents them.
\<close>

definition IsSpace :: "char \<Rightarrow> bool" where
  "IsSpace c = (of_char c \<in> {9::nat, 10, 11, 12, 13, 32, 133, 160})"

definition IsDigit :: "char \<Rightarrow> bool" where
  "IsDigit c = (48 \<le> (of_char c :: nat) \<and> (of_char c :: nat) \<le> 57)"

definition IsLetter :: "char \<Rightarrow> bool" where
  "IsLetter c =
     (let n = (of_char c :: nat) in
        (65 \<le> n \<and> n \<le> 90) \<or> (97 \<le> n \<and> n \<le> 122) \<or>
        n = 170 \<or> n = 181 \<or> n = 186 \<or>
        (192 \<le> n \<and> n \<le> 214) \<or> (216 \<le> n \<and> n \<le> 246) \<or> 248 \<le> n)"

text \<open>\<open>strings.Split(s, sep)\<close> for a separator of one byte: the pieces between
  the occurrences of the separator, one more than there are occurrences.\<close>

fun Split :: "string \<Rightarrow> char \<Rightarrow> string list" where
  "Split [] sep = [[]]"
| "Split (c # cs) sep =
     (if c = sep then [] # Split cs sep
      else (c # hd (Split cs sep)) # tl (Split cs sep))"

text \<open>\<open>strings.Contains(s, substr)\<close>.\<close>

fun Contains :: "string \<Rightarrow> string \<Rightarrow> bool" where
  "Contains [] sub = (sub = [])"
| "Contains (c # cs) sub = (prefix sub (c # cs) \<or> Contains cs sub)"

text \<open>The verb \<open>%d\<close> of \<open>fmt.Sprintf\<close> on a number that is never negative
  (lines and columns), and the verb \<open>%c\<close> on a rune below 256 (its UTF-8
  encoding: one byte below 128, two bytes from there).\<close>

definition digit_char :: "nat \<Rightarrow> char" where
  "digit_char d = char_of (48 + d)"

fun fmt_d :: "nat \<Rightarrow> string" where
  "fmt_d n = (if n < 10 then [digit_char n] else fmt_d (n div 10) @ [digit_char (n mod 10)])"

declare fmt_d.simps [simp del]

definition fmt_c :: "char \<Rightarrow> string" where
  "fmt_c c =
     (let n = (of_char c :: nat) in
        if n < 128 then [c]
        else [char_of (192 + n div 64), char_of (128 + n mod 64)])"

section \<open>The scanner (package lexer)\<close>

datatype TokenType =
  KEYWORD | IDENTIFIER | NUMBER | STRING | SYMBOL | WHITESPACE | NEWLINE | ERROR

record Token =
  Type :: TokenType
  Value :: string
  Line :: nat
  Column :: nat

text \<open>The zero value \<open>Token{}\<close>.\<close>

definition Token_zero :: Token where
  "Token_zero = \<lparr>Type = KEYWORD, Value = [], Line = 0, Column = 0\<rparr>"

record TokenStatistics =
  Keywords :: nat
  Identifiers :: nat
  Numbers :: nat
  Strings :: nat
  Symbols :: nat
  ErrorsCount :: nat

record LexicalResult =
  Tokens :: "Token list"
  Table :: "string \<rightharpoonup> string list"
  Statistics :: TokenStatistics
  Errors :: "string list"
  ReservedWords :: nat

definition pythonKeywords :: "string \<Rightarrow> bool" where
  "pythonKeywords v = (v \<in> set
     [''def'', ''if'', ''else'', ''elif'', ''while'',
      ''for'', ''in'', ''try'', ''except'', ''finally'',
      ''with'', ''as'', ''pass'', ''break'', ''continue'',
      ''return'', ''yield'', ''import'', ''from'', ''class'',
      ''and'', ''or'', ''not'', ''is'', ''lambda'',
      ''None'', ''True'', ''False'', ''print''])"

definition pythonSymbols :: "string list" where
  "pythonSymbols =
     [''=='', ''!='', ''<='', ''>='', ''>>'', ''<<'', ''**'', ''//'', ''+='', ''-='', ''*='', ''/='',
      ''='', ''+'', ''-'', ''*'', ''/'', ''%'', ''<'', ''>'', ''('', '')'', ''['', '']'', ''{'', ''}'',
      '':'', '';'', '','', ''.'', ''&'', ''|'', ''^'', ''~'', ''!'', ''@'', ''#'', ''$'', ''?'']"

text \<open>\<open>append(r.Table[k], v)\<close>: a missing key reads as the empty slice.\<close>

definition table_append :: "(string \<rightharpoonup> string list) \<Rightarrow> string \<Rightarrow> string \<Rightarrow> (string \<rightharpoonup> string list)" where
  "table_append t k v = t(k \<mapsto> (case t k of None \<Rightarrow> [] | Some l \<Rightarrow> l) @ [v])"

definition addToken :: "LexicalResult \<Rightarrow> Token \<Rightarrow> LexicalResult" where
  "addToken r token =
     (let r1 = r\<lparr>Tokens := Tokens r @ [token]\<rparr>; st = Statistics r1 in
      case Type token of
        KEYWORD \<Rightarrow> r1\<lparr>Table := table_append (Table r1) ''PR'' (Value token),
                       Statistics := st\<lparr>Keywords := Keywords st + 1\<rparr>\<rparr>
      | IDENTIFIER \<Rightarrow> r1\<lparr>Table := table_append (Table r1) ''ID'' (Value token),
                       Statistics := st\<lparr>Identifiers := Identifiers st + 1\<rparr>\<rparr>
      | NUMBER \<Rightarrow> r1\<lparr>Table := table_append (Table r1) ''Numeros'' (Value token),
                       Statistics := st\<lparr>Numbers := Numbers st + 1\<rparr>\<rparr>
      | STRING \<Rightarrow> r1\<lparr>Statistics := st\<lparr>Strings := Strings st + 1\<rparr>\<rparr>
      | SYMBOL \<Rightarrow> r1\<lparr>Table := table_append (Table r1) ''Simbolos'' (Value token),
                       Statistics := st\<lparr>Symbols := Symbols st + 1\<rparr>\<rparr>
      | ERROR \<Rightarrow> r1\<lparr>Table := table_append (Table r1) ''Error'' (Value token),
                       Statistics := st\<lparr>ErrorsCount := ErrorsCount st + 1\<rparr>\<rparr>
      | _ \<Rightarrow> r1)"

text \<open>\<open>processString\<close>: the loop over \<open>i\<close>, then the two returns.  The text
  starts at the opening quote.\<close>

function processString_loop :: "string \<Rightarrow> nat \<Rightarrow> char \<Rightarrow> nat" where
  "processString_loop text i quote =
     (if i < length text \<and> text ! i \<noteq> quote
      then (if text ! i = CHR 0x5C \<and> i + 1 < length text
            then processString_loop text (i + 2) quote
            else processString_loop text (i + 1) quote)
      else i)"
  by pat_completeness auto
termination
  by (relation "measure (\<lambda>(text, i, quote). length text - i)") auto

declare processString_loop.simps [simp del]

definition processString :: "string \<Rightarrow> nat \<Rightarrow> nat \<Rightarrow> char \<Rightarrow> Token \<times> nat" where
  "processString text line column quote =
     (let i = processString_loop text 1 quote in
      if i \<ge> length text
      then (\<lparr>Type = ERROR, Value = text, Line = line, Column = column\<rparr>, length text)
      else (\<lparr>Type = STRING, Value = take (i + 1) text, Line = line, Column = column\<rparr>, i + 1))"

function processNumber_loop :: "string \<Rightarrow> nat \<Rightarrow> bool \<Rightarrow> nat" where
  "processNumber_loop text i hasDecimal =
     (if i < length text \<and> (IsDigit (text ! i) \<or> text ! i = CHR ''.'')
      then (if text ! i = CHR ''.''
            then (if hasDecimal then i else processNumber_loop text (i + 1) True)
            else processNumber_loop text (i + 1) hasDecimal)
      else i)"
  by pat_completeness auto
termination
  by (relation "measure (\<lambda>(text, i, hasDecimal). length text - i)") auto

declare processNumber_loop.simps [simp del]

definition processNumber :: "string \<Rightarrow> nat \<Rightarrow> nat \<Rightarrow> Token \<times> nat" where
  "processNumber text line column =
     (let i = processNumber_loop text 0 False in
      (\<lparr>Type = NUMBER, Value = take i text, Line = line, Column = column\<rparr>, i))"

function processIdentifier_loop :: "string \<Rightarrow> nat \<Rightarrow> nat" where
  "processIdentifier_loop text i =
     (if i < length text \<and> (IsLetter (text ! i) \<or> IsDigit (text ! i) \<or> text ! i = CHR ''_'')
      then processIdentifier_loop text (i + 1)
      else i)"
  by pat_completeness auto
termination
  by (relation "measure (\<lambda>(text, i). length text - i)") auto

declare processIdentifier_loop.simps [simp del]

definition processIdentifier :: "string \<Rightarrow> nat \<Rightarrow> nat \<Rightarrow> Token \<times> nat" where
  "processIdentifier text line column =
     (let i = processIdentifier_loop text 0;
          value = take i text;
          tokenType = (if pythonKeywords value then KEYWORD else IDENTIFIER)
      in (\<lparr>Type = tokenType, Value = value, Line = line, Column = column\<rparr>, i))"

text \<open>\<open>processSymbol\<close>.  \<open>twoChar\<close> is the slice \<open>text[:2]\<close>, but
  \<open>oneChar := string(text[0])\<close> converts the byte, read as a code point, to its UTF-8
  encoding: the byte itself below 0x80 and two bytes from there (\<open>fmt_c\<close>).  The function
  is only called on a text that is not empty; \<open>text[0]\<close> would panic otherwise.\<close>

definition processSymbol :: "string \<Rightarrow> nat \<Rightarrow> nat \<Rightarrow> Token \<times> nat" where
  "processSymbol text line column =
     (if length text \<ge> 2 \<and> take 2 text \<in> set pythonSymbols
      then (\<lparr>Type = SYMBOL, Value = take 2 text, Line = line, Column = column\<rparr>, 2)
      else
        (let oneChar = fmt_c (text ! 0) in
         if oneChar \<in> set pythonSymbols
         then (\<lparr>Type = SYMBOL, Value = oneChar, Line = line, Column = column\<rparr>, 1)
         else (\<lparr>Type = ERROR, Value = oneChar, Line = line, Column = column\<rparr>, 1)))"

text \<open>The diagnostic of an unrecognised character,
  \<open>"Car\<acute>acter no reconocido '%c' en l\<acute>inea %d, columna %d"\<close>; the accented
  letters are two bytes each in the Go source.\<close>

definition linea :: string where
  "linea = ''l'' @ [CHR 0xC3, CHR 0xAD] @ ''nea ''"

definition unrecognized_msg :: "char \<Rightarrow> nat \<Rightarrow> nat \<Rightarrow> string" where
  "unrecognized_msg char lineNum column =
     ''Car'' @ [CHR 0xC3, CHR 0xA1] @ ''cter no reconocido '' @ [CHR 0x27] @ fmt_c char @ [CHR 0x27]
       @ '' en '' @ linea @ fmt_d lineNum @ '', columna '' @ fmt_d column"

lemma processString_loop_ge: "i \<le> processString_loop t i q"
proof (induction t i q rule: processString_loop.induct)
  case (1 t i q)
  show ?case
    using "1.IH" by (subst processString_loop.simps) (auto split: if_splits)
qed

lemma processString_length_pos: "text \<noteq> [] \<Longrightarrow> 0 < snd (processString text line column quote)"
  by (simp add: processString_def Let_def)

lemma processNumber_loop_ge: "i \<le> processNumber_loop t i d"
proof (induction t i d rule: processNumber_loop.induct)
  case (1 t i d)
  show ?case
    using "1.IH" by (subst processNumber_loop.simps) (auto split: if_splits)
qed

lemma processNumber_length_pos:
  assumes "text \<noteq> []" and "IsDigit (text ! 0)"
  shows "0 < snd (processNumber text line column)"
proof -
  have ne: "text ! 0 \<noteq> CHR ''.''"
    using assms(2) by (auto simp: IsDigit_def)
  have "processNumber_loop text 0 False = processNumber_loop text (0 + 1) False"
    using assms ne by (subst processNumber_loop.simps) simp
  moreover have "0 + 1 \<le> processNumber_loop text (0 + 1) False"
    by (rule processNumber_loop_ge)
  ultimately show ?thesis
    by (simp add: processNumber_def Let_def)
qed

lemma processIdentifier_loop_ge: "i \<le> processIdentifier_loop t i"
proof (induction t i rule: processIdentifier_loop.induct)
  case (1 t i)
  show ?case
    using "1.IH" by (subst processIdentifier_loop.simps) (auto split: if_splits)
qed

lemma processIdentifier_length_pos:
  assumes "text \<noteq> []" and "IsLetter (text ! 0) \<or> text ! 0 = CHR ''_''"
  shows "0 < snd (processIdentifier text line column)"
proof -
  have "processIdentifier_loop text 0 = processIdentifier_loop text (0 + 1)"
    using assms by (subst processIdentifier_loop.simps) auto
  moreover have "0 + 1 \<le> processIdentifier_loop text (0 + 1)"
    by (rule processIdentifier_loop_ge)
  ultimately show ?thesis
    by (simp add: processIdentifier_def Let_def)
qed

lemma processSymbol_length_pos: "0 < snd (processSymbol text line column)"
  by (simp add: processSymbol_def Let_def)

text \<open>\<open>processLine\<close>: the loop over the byte index \<open>i\<close> and the column, with
  the result \<open>r\<close> passed through; \<open>line[i:]\<close> is \<open>drop i line\<close>.\<close>

function processLine_loop :: "string \<Rightarrow> nat \<Rightarrow> nat \<Rightarrow> nat \<Rightarrow> LexicalResult \<Rightarrow> LexicalResult" where
  "processLine_loop line lineNum i column r =
     (if i < length line then
        (if IsSpace (line ! i) then processLine_loop line lineNum (i + 1) (column + 1) r
         else if line ! i = CHR ''#'' then r
         else if line ! i = CHR 0x22 \<or> line ! i = CHR 0x27 then
           processLine_loop line lineNum
             (i + snd (processString (drop i line) lineNum column (line ! i)))
             (column + snd (processString (drop i line) lineNum column (line ! i)))
             (addToken r (fst (processString (drop i line) lineNum column (line ! i))))
         else if IsDigit (line ! i) then
           processLine_loop line lineNum
             (i + snd (processNumber (drop i line) lineNum column))
             (column + snd (processNumber (drop i line) lineNum column))
             (addToken r (fst (processNumber (drop i line) lineNum column)))
         else if IsLetter (line ! i) \<or> line ! i = CHR ''_'' then
           processLine_loop line lineNum
             (i + snd (processIdentifier (drop i line) lineNum column))
             (column + snd (processIdentifier (drop i line) lineNum column))
             (addToken r (fst (processIdentifier (drop i line) lineNum column)))
         else
           processLine_loop line lineNum
             (i + snd (processSymbol (drop i line) lineNum column))
             (column + snd (processSymbol (drop i line) lineNum column))
             (addToken
                (if Type (fst (processSymbol (drop i line) lineNum column)) = ERROR
                 then r\<lparr>Errors := Errors r @ [unrecognized_msg (line ! i) lineNum column]\<rparr>
                 else r)
                (fst (processSymbol (drop i line) lineNum column))))
      else r)"
  by pat_completeness auto
termination
proof (relation "measure (\<lambda>(line, lineNum, i, column, r). length line - i)")
  fix line :: string and lineNum i column :: nat and r :: LexicalResult
  assume i: "i < length line"
  have ne: "drop i line \<noteq> []" and hd: "drop i line ! 0 = line ! i"
    using i by simp_all
  show "((line, lineNum, i + 1, column + 1, r), (line, lineNum, i, column, r))
        \<in> measure (\<lambda>(line, lineNum, i, column, r). length line - i)"
    using i by simp
  show "((line, lineNum, i + snd (processString (drop i line) lineNum column (line ! i)),
          column + snd (processString (drop i line) lineNum column (line ! i)),
          addToken r (fst (processString (drop i line) lineNum column (line ! i)))),
         (line, lineNum, i, column, r))
        \<in> measure (\<lambda>(line, lineNum, i, column, r). length line - i)"
    using i processString_length_pos [OF ne, of lineNum column "line ! i"] by simp
  show "((line, lineNum, i + snd (processSymbol (drop i line) lineNum column),
          column + snd (processSymbol (drop i line) lineNum column),
          addToken
            (if Type (fst (processSymbol (drop i line) lineNum column)) = ERROR
             then r\<lparr>Errors := Errors r @ [unrecognized_msg (line ! i) lineNum column]\<rparr>
             else r)
            (fst (processSymbol (drop i line) lineNum column))),
         (line, lineNum, i, column, r))
        \<in> measure (\<lambda>(line, lineNum, i, column, r). length line - i)"
    using i processSymbol_length_pos [of "drop i line" lineNum column] by simp
  {
    assume "IsDigit (line ! i)"
    then show "((line, lineNum, i + snd (processNumber (drop i line) lineNum column),
          column + snd (processNumber (drop i line) lineNum column),
          addToken r (fst (processNumber (drop i line) lineNum column))),
         (line, lineNum, i, column, r))
        \<in> measure (\<lambda>(line, lineNum, i, column, r). length line - i)"
      using i processNumber_length_pos [OF ne, of lineNum column] hd by simp
  }
  {
    assume "IsLetter (line ! i) \<or> line ! i = CHR ''_''"
    then show "((line, lineNum, i + snd (processIdentifier (drop i line) lineNum column),
          column + snd (processIdentifier (drop i line) lineNum column),
          addToken r (fst (processIdentifier (drop i line) lineNum column))),
         (line, lineNum, i, column, r))
        \<in> measure (\<lambda>(line, lineNum, i, column, r). length line - i)"
      using i processIdentifier_length_pos [OF ne, of lineNum column] hd by simp
  }
qed simp

declare processLine_loop.simps [simp del]

definition processLine :: "LexicalResult \<Rightarrow> string \<Rightarrow> nat \<Rightarrow> LexicalResult" where
  "processLine r line lineNum = processLine_loop line lineNum 0 1 r"

text \<open>\<open>Analyze\<close> of package lexer: \<open>for lineNum, line := range lines\<close> with
  \<open>lineNum\<close> counted from 0.\<close>

fun lexer_Analyze_loop :: "string list \<Rightarrow> nat \<Rightarrow> LexicalResult \<Rightarrow> LexicalResult" where
  "lexer_Analyze_loop [] lineNum r = r"
| "lexer_Analyze_loop (line # lines) lineNum r =
     lexer_Analyze_loop lines (lineNum + 1) (processLine r line (lineNum + 1))"

definition LexicalResult_init :: LexicalResult where
  "LexicalResult_init =
     \<lparr>Tokens = [],
      Table = [''PR'' \<mapsto> [], ''ID'' \<mapsto> [], ''Numeros'' \<mapsto> [], ''Simbolos'' \<mapsto> [], ''Error'' \<mapsto> []],
      Statistics = \<lparr>Keywords = 0, Identifiers = 0, Numbers = 0, Strings = 0, Symbols = 0,
                     ErrorsCount = 0\<rparr>,
      Errors = [],
      ReservedWords = 0\<rparr>"

definition lexer_Analyze :: "string \<Rightarrow> LexicalResult" where
  "lexer_Analyze code =
     (let result = lexer_Analyze_loop (Split code (CHR 0x0A)) 0 LexicalResult_init
      in result\<lparr>ReservedWords := Keywords (Statistics result)\<rparr>)"


section \<open>The tree builder (package parser)\<close>

text \<open>A \<open>*ASTNode\<close> is either \<open>nil\<close> or points to a node with the four fields
  \<open>Type\<close>, \<open>Value\<close>, \<open>Line\<close> and \<open>Children\<close>; the children are such pointers
  again, and a child can be \<open>nil\<close>.\<close>

datatype ASTNode = NilNode | ASTNode string string nat "ASTNode list"

text \<open>The accented letters of the messages, two bytes each in the Go source.\<close>

definition a_acute :: string where "a_acute = [CHR 0xC3, CHR 0xA1]"
definition e_acute :: string where "e_acute = [CHR 0xC3, CHR 0xA9]"
definition o_acute :: string where "o_acute = [CHR 0xC3, CHR 0xB3]"
definition u_acute :: string where "u_acute = [CHR 0xC3, CHR 0xBA]"
definition sq :: string where "sq = [CHR 0x27]"

text \<open>The outcome of a run of the parser.  Every parsing function takes a bound on the
  calls and loop iterations still allowed; \<open>OutOfFuel\<close> says the bound was reached, so a
  run that gives \<open>OutOfFuel\<close> for every bound is a run that never returns.  \<open>Panic\<close> is
  Go's run-time panic on reading a field through a \<open>nil\<close> pointer.\<close>

datatype 'a run = OutOfFuel | Panic | Return 'a

definition and_then :: "'a run \<Rightarrow> ('a \<Rightarrow> 'b run) \<Rightarrow> 'b run" where
  "and_then m f = (case m of OutOfFuel \<Rightarrow> OutOfFuel | Panic \<Rightarrow> Panic | Return x \<Rightarrow> f x)"

record Parser =
  tokens :: "Token list"
  current :: nat
  errors :: "string list"
  indent :: nat

definition filterTokens :: "Token list \<Rightarrow> Token list" where
  "filterTokens ts = filter (\<lambda>token. Type token \<noteq> WHITESPACE \<and> Type token \<noteq> NEWLINE) ts"

definition isAtEnd :: "Parser \<Rightarrow> bool" where
  "isAtEnd p = (current p \<ge> length (tokens p))"

definition peek :: "Parser \<Rightarrow> Token" where
  "peek p = (if isAtEnd p then Token_zero else tokens p ! current p)"

text \<open>\<open>current\<close> never exceeds the number of tokens, so the index is in range.\<close>

definition previous :: "Parser \<Rightarrow> Token" where
  "previous p = (if current p = 0 then Token_zero else tokens p ! (current p - 1))"

definition advance :: "Parser \<Rightarrow> Token \<times> Parser" where
  "advance p =
     (let p1 = (if \<not> isAtEnd p then p\<lparr>current := current p + 1\<rparr> else p)
      in (previous p1, p1))"

definition check :: "string \<Rightarrow> Parser \<Rightarrow> bool" where
  "check tokenValue p = (if isAtEnd p then False else Value (peek p) = tokenValue)"

definition checkType :: "TokenType \<Rightarrow> Parser \<Rightarrow> bool" where
  "checkType tokenType p = (if isAtEnd p then False else Type (peek p) = tokenType)"

definition checkNext :: "string \<Rightarrow> Parser \<Rightarrow> bool" where
  "checkNext tokenValue p =
     (if current p + 1 \<ge> length (tokens p) then False
      else Value (tokens p ! (current p + 1)) = tokenValue)"

fun match :: "string list \<Rightarrow> Parser \<Rightarrow> bool \<times> Parser" where
  "match [] p = (False, p)"
| "match (t # types) p = (if check t p then (True, snd (advance p)) else match types p)"

definition error :: "string \<Rightarrow> Parser \<Rightarrow> Parser" where
  "error message p =
     (let line = (if \<not> isAtEnd p then Line (peek p) else 1)
      in p\<lparr>errors := errors p @ [''Error en '' @ linea @ fmt_d line @ '': '' @ message]\<rparr>)"

lemma match_state: "tokens (snd (match ts p)) = tokens p \<and> current p \<le> current (snd (match ts p))"
  by (induction ts) (auto simp: advance_def Let_def)

declare match.simps [simp del]

text \<open>The parameter loop of \<open>parseFunctionDef\<close>.\<close>

function parseFunctionDef_params :: "ASTNode list \<Rightarrow> Parser \<Rightarrow> ASTNode list \<times> Parser" where
  "parseFunctionDef_params params p =
     (if \<not> checkType IDENTIFIER p
      then (params, error (''Se esperaba nombre de par'' @ a_acute @ ''metro'') p)
      else
        (let param = ASTNode ''Parameter'' (Value (fst (advance p)))
                       (Line (previous (snd (advance p)))) [];
             params1 = params @ [param]
         in if \<not> fst (match ['',''] (snd (advance p)))
            then (params1, snd (match ['',''] (snd (advance p))))
            else parseFunctionDef_params params1 (snd (match ['',''] (snd (advance p))))))"
  by pat_completeness auto
termination
proof (relation "measure (\<lambda>(params, p). length (tokens p) - current p)")
  fix params :: "ASTNode list" and p :: Parser and x xa
  assume "\<not> \<not> checkType IDENTIFIER p"
  then have lt: "current p < length (tokens p)"
    by (auto simp: checkType_def isAtEnd_def split: if_splits)
  then have "tokens (snd (advance p)) = tokens p" and "current (snd (advance p)) = current p + 1"
    by (simp_all add: advance_def Let_def isAtEnd_def)
  with match_state [of "['','']" "snd (advance p)"] lt
  show "((xa, snd (match ['',''] (snd (advance p)))), params, p)
        \<in> measure (\<lambda>(params, p). length (tokens p) - current p)"
    by simp arith
qed simp

declare parseFunctionDef_params.simps [simp del]


text \<open>The parsing functions call each other, so each body is written first, with the
  functions it calls as parameters of the same names; the functions themselves follow,
  by recursion on the bound.  First the expressions.\<close>

text \<open>The loops of \<open>parseComparison\<close> and \<open>parseTerm\<close>.  \<open>expr.Line\<close> is read after the
  right operand has been parsed, and panics when \<open>expr\<close> is \<open>nil\<close>.\<close>

definition parseComparison_loop_body ::
  "(Parser \<Rightarrow> (ASTNode \<times> Parser) run) \<Rightarrow> (ASTNode \<Rightarrow> Parser \<Rightarrow> (ASTNode \<times> Parser) run) \<Rightarrow>
   ASTNode \<Rightarrow> Parser \<Rightarrow> (ASTNode \<times> Parser) run" where
  "parseComparison_loop_body parseTerm parseComparison_loop expr p =
     (let (m, p1) = match [''>'', ''<'', ''>='', ''<='', ''=='', ''!=''] p in
      if m
      then
        (let operator = Value (previous p1) in
         and_then (parseTerm p1)
           (\<lambda>(right, p2).
              case expr of
                NilNode \<Rightarrow> Panic
              | ASTNode _ _ line _ \<Rightarrow>
                  parseComparison_loop (ASTNode ''BinaryOp'' operator line [expr, right]) p2))
      else Return (expr, p1))"

definition parseComparison_body ::
  "(Parser \<Rightarrow> (ASTNode \<times> Parser) run) \<Rightarrow> (ASTNode \<Rightarrow> Parser \<Rightarrow> (ASTNode \<times> Parser) run) \<Rightarrow>
   Parser \<Rightarrow> (ASTNode \<times> Parser) run" where
  "parseComparison_body parseTerm parseComparison_loop p =
     and_then (parseTerm p) (\<lambda>(expr, p1). parseComparison_loop expr p1)"

definition parseTerm_loop_body ::
  "(Parser \<Rightarrow> (ASTNode \<times> Parser) run) \<Rightarrow> (ASTNode \<Rightarrow> Parser \<Rightarrow> (ASTNode \<times> Parser) run) \<Rightarrow>
   ASTNode \<Rightarrow> Parser \<Rightarrow> (ASTNode \<times> Parser) run" where
  "parseTerm_loop_body parseFactor parseTerm_loop expr p =
     (let (m, p1) = match [''+'', ''-''] p in
      if m
      then
        (let operator = Value (previous p1) in
         and_then (parseFactor p1)
           (\<lambda>(right, p2).
              case expr of
                NilNode \<Rightarrow> Panic
              | ASTNode _ _ line _ \<Rightarrow>
                  parseTerm_loop (ASTNode ''BinaryOp'' operator line [expr, right]) p2))
      else Return (expr, p1))"

definition parseTerm_body ::
  "(Parser \<Rightarrow> (ASTNode \<times> Parser) run) \<Rightarrow> (ASTNode \<Rightarrow> Parser \<Rightarrow> (ASTNode \<times> Parser) run) \<Rightarrow>
   Parser \<Rightarrow> (ASTNode \<times> Parser) run" where
  "parseTerm_body parseFactor parseTerm_loop p =
     and_then (parseFactor p) (\<lambda>(expr, p1). parseTerm_loop expr p1)"

text \<open>The argument loop that \<open>parseFactor\<close> has twice, for a call and for a method call.\<close>

definition parseFactor_args_body ::
  "(Parser \<Rightarrow> (ASTNode \<times> Parser) run) \<Rightarrow>
   (ASTNode list \<Rightarrow> Parser \<Rightarrow> (ASTNode list \<times> Parser) run) \<Rightarrow>
   ASTNode list \<Rightarrow> Parser \<Rightarrow> (ASTNode list \<times> Parser) run" where
  "parseFactor_args_body parseExpression parseFactor_args args p =
     and_then (parseExpression p)
       (\<lambda>(arg, p1).
          let args1 = (if arg \<noteq> NilNode then args @ [arg] else args);
              (m, p2) = match ['',''] p1
          in if \<not> m then Return (args1, p2) else parseFactor_args args1 p2)"

definition parseFactor_body ::
  "(Parser \<Rightarrow> (ASTNode \<times> Parser) run) \<Rightarrow>
   (ASTNode list \<Rightarrow> Parser \<Rightarrow> (ASTNode list \<times> Parser) run) \<Rightarrow>
   Parser \<Rightarrow> (ASTNode \<times> Parser) run" where
  "parseFactor_body parseExpression parseFactor_args p =
     (let (m, p1) = match [''(''] p in
      if m
      then
        and_then (parseExpression p1)
          (\<lambda>(expr, p2).
             let (m, p3) = match ['')''] p2 in
             if \<not> m
             then Return (expr,
                    error (''Se esperaba '' @ sq @ '')'' @ sq @ '' despu'' @ e_acute @ ''s de la expresi''
                            @ o_acute @ ''n'') p3)
             else Return (expr, p3))
      else if checkType NUMBER p1
      then (let (tok, p2) = advance p1
            in Return (ASTNode ''Number'' (Value tok) (Line (previous p2)) [], p2))
      else if checkType STRING p1
      then (let (tok, p2) = advance p1
            in Return (ASTNode ''String'' (Value tok) (Line (previous p2)) [], p2))
      else if checkType IDENTIFIER p1
      then
        (let (tok, p2) = advance p1; name = Value tok; (m, p3) = match [''(''] p2 in
         if m
         then
           and_then (if \<not> check '')'' p3 then parseFactor_args [] p3 else Return ([], p3))
             (\<lambda>(args, p4).
                let (m, p5) = match ['')''] p4;
                    p6 = (if \<not> m
                          then error (''Se esperaba '' @ sq @ '')'' @ sq @ '' despu'' @ e_acute
                                 @ ''s de los argumentos'') p5
                          else p5)
                in Return (ASTNode ''FunctionCall'' name (Line (previous p6)) args, p6))
         else
           (let (m, p4) = match [''.''] p3 in
            if m
            then
              (if \<not> checkType IDENTIFIER p4
               then Return (NilNode,
                      error (''Se esperaba nombre de m'' @ e_acute @ ''todo despu'' @ e_acute @ ''s de ''
                              @ sq @ ''.'' @ sq) p4)
               else
                 (let (mtok, p5) = advance p4; method = Value mtok; (m, p6) = match [''(''] p5 in
                  if m
                  then
                    and_then (if \<not> check '')'' p6 then parseFactor_args [] p6 else Return ([], p6))
                      (\<lambda>(args, p7).
                         let (m, p8) = match ['')''] p7;
                             p9 = (if \<not> m
                                   then error (''Se esperaba '' @ sq @ '')'' @ sq @ '' despu'' @ e_acute
                                          @ ''s de los argumentos del m'' @ e_acute @ ''todo'') p8
                                   else p8)
                         in Return (ASTNode ''MethodCall'' (name @ ''.'' @ method) (Line (previous p9)) args,
                                    p9))
                  else Return (ASTNode ''Identifier'' name (Line (previous p6)) [], p6)))
            else Return (ASTNode ''Identifier'' name (Line (previous p4)) [], p4)))
      else Return (NilNode, error (''Se esperaba expresi'' @ o_acute @ ''n'') p1))"


fun parseExpression :: "nat \<Rightarrow> Parser \<Rightarrow> (ASTNode \<times> Parser) run"
  and parseComparison :: "nat \<Rightarrow> Parser \<Rightarrow> (ASTNode \<times> Parser) run"
  and parseComparison_loop :: "nat \<Rightarrow> ASTNode \<Rightarrow> Parser \<Rightarrow> (ASTNode \<times> Parser) run"
  and parseTerm :: "nat \<Rightarrow> Parser \<Rightarrow> (ASTNode \<times> Parser) run"
  and parseTerm_loop :: "nat \<Rightarrow> ASTNode \<Rightarrow> Parser \<Rightarrow> (ASTNode \<times> Parser) run"
  and parseFactor :: "nat \<Rightarrow> Parser \<Rightarrow> (ASTNode \<times> Parser) run"
  and parseFactor_args :: "nat \<Rightarrow> ASTNode list \<Rightarrow> Parser \<Rightarrow> (ASTNode list \<times> Parser) run"
where
  "parseExpression 0 p = OutOfFuel"
| "parseExpression (Suc n) p = parseComparison n p"
| "parseComparison 0 p = OutOfFuel"
| "parseComparison (Suc n) p = parseComparison_body (parseTerm n) (parseComparison_loop n) p"
| "parseComparison_loop 0 expr p = OutOfFuel"
| "parseComparison_loop (Suc n) expr p =
     parseComparison_loop_body (parseTerm n) (parseComparison_loop n) expr p"
| "parseTerm 0 p = OutOfFuel"
| "parseTerm (Suc n) p = parseTerm_body (parseFactor n) (parseTerm_loop n) p"
| "parseTerm_loop 0 expr p = OutOfFuel"
| "parseTerm_loop (Suc n) expr p = parseTerm_loop_body (parseFactor n) (parseTerm_loop n) expr p"
| "parseFactor 0 p = OutOfFuel"
| "parseFactor (Suc n) p = parseFactor_body (parseExpression n) (parseFactor_args n) p"
| "parseFactor_args 0 args p = OutOfFuel"
| "parseFactor_args (Suc n) args p =
     parseFactor_args_body (parseExpression n) (parseFactor_args n) args p"

text \<open>The statements that only call the expression parser.\<close>

definition parseExpressionStatement :: "nat \<Rightarrow> Parser \<Rightarrow> (ASTNode \<times> Parser) run" where
  "parseExpressionStatement n p =
     and_then (parseExpression n p)
       (\<lambda>(expr, p1).
          case expr of
            NilNode \<Rightarrow> Return (NilNode, p1)
          | ASTNode _ _ line _ \<Rightarrow> Return (ASTNode ''ExpressionStatement'' [] line [expr], p1))"

definition parseAssignment :: "nat \<Rightarrow> Parser \<Rightarrow> (ASTNode \<times> Parser) run" where
  "parseAssignment n p =
     (let line = Line (peek p) in
      if \<not> checkType IDENTIFIER p
      then Return (NilNode, error (''Se esperaba identificador en asignaci'' @ o_acute @ ''n'') p)
      else
        (let (tok, p1) = advance p; name = Value tok; (m, p2) = match [''=''] p1 in
         if \<not> m
         then Return (NilNode,
                error (''Se esperaba '' @ sq @ ''='' @ sq @ '' en asignaci'' @ o_acute @ ''n'') p2)
         else
           and_then (parseExpression n p2)
             (\<lambda>(value, p3).
                if value = NilNode then Return (NilNode, p3)
                else Return (ASTNode ''Assignment'' name line [value], p3))))"

definition parseAssignmentOrExpression :: "nat \<Rightarrow> Parser \<Rightarrow> (ASTNode \<times> Parser) run" where
  "parseAssignmentOrExpression n p =
     (if current p + 1 < length (tokens p) \<and> Value (tokens p ! (current p + 1)) = ''=''
      then parseAssignment n p
      else parseExpressionStatement n p)"

text \<open>The statements that call each other through the blocks.\<close>

definition parseStatement_body ::
  "(Parser \<Rightarrow> (ASTNode \<times> Parser) run) \<Rightarrow> (Parser \<Rightarrow> (ASTNode \<times> Parser) run) \<Rightarrow>
   nat \<Rightarrow> Parser \<Rightarrow> (ASTNode \<times> Parser) run" where
  "parseStatement_body parseFunctionDef parseIfStatement n p =
     (let (m, p1) = match [''def''] p in
      if m then parseFunctionDef p1
      else
        (let (m, p2) = match [''if''] p1 in
         if m then parseIfStatement p2
         else if check ''print'' p2 then parseExpressionStatement n p2
         else if checkType IDENTIFIER p2 then parseAssignmentOrExpression n p2
         else parseExpressionStatement n p2))"

definition parseFunctionDef_body ::
  "(Parser \<Rightarrow> (ASTNode \<times> Parser) run) \<Rightarrow> Parser \<Rightarrow> (ASTNode \<times> Parser) run" where
  "parseFunctionDef_body parseBlock p =
     (let line = Line (previous p) in
      if \<not> checkType IDENTIFIER p
      then Return (NilNode, error (''Se esperaba nombre de funci'' @ o_acute @ ''n'') p)
      else
        (let (tok, p1) = advance p; name = Value tok; (m, p2) = match [''(''] p1 in
         if \<not> m
         then Return (NilNode,
                error (''Se esperaba '' @ sq @ ''('' @ sq @ '' despu'' @ e_acute @ ''s del nombre de funci''
                        @ o_acute @ ''n'') p2)
         else
           (let (params, p3) = (if \<not> check '')'' p2 then parseFunctionDef_params [] p2 else ([], p2));
                (m, p4) = match ['')''] p3 in
            if \<not> m
            then Return (NilNode,
                   error (''Se esperaba '' @ sq @ '')'' @ sq @ '' despu'' @ e_acute @ ''s de los par''
                           @ a_acute @ ''metros'') p4)
            else
              (let (m, p5) = match ['':''] p4 in
               if \<not> m
               then Return (NilNode,
                      error (''Se esperaba '' @ sq @ '':'' @ sq @ '' despu'' @ e_acute @ ''s de la definici''
                              @ o_acute @ ''n de funci'' @ o_acute @ ''n'') p5)
               else
                 and_then (parseBlock p5)
                   (\<lambda>(body, p6). Return (ASTNode ''FunctionDef'' name line (params @ [body]), p6))))))"

definition parseIfStatement_body ::
  "(Parser \<Rightarrow> (ASTNode \<times> Parser) run) \<Rightarrow> nat \<Rightarrow> Parser \<Rightarrow> (ASTNode \<times> Parser) run" where
  "parseIfStatement_body parseBlock n p =
     (let line = Line (previous p) in
      and_then (parseExpression n p)
        (\<lambda>(condition, p1).
           if condition = NilNode then Return (NilNode, p1)
           else
             (let (m, p2) = match ['':''] p1 in
              if \<not> m
              then Return (NilNode,
                     error (''Se esperaba '' @ sq @ '':'' @ sq @ '' despu'' @ e_acute @ ''s de la condici''
                             @ o_acute @ ''n if'') p2)
              else
                and_then (parseBlock p2)
                  (\<lambda>(thenBranch, p3).
                     Return (ASTNode ''IfStatement'' [] line [condition, thenBranch], p3)))))"

definition parseBlock_body ::
  "(ASTNode list \<Rightarrow> Parser \<Rightarrow> (ASTNode list \<times> Parser) run) \<Rightarrow> Parser \<Rightarrow> (ASTNode \<times> Parser) run" where
  "parseBlock_body parseBlock_loop p =
     and_then (parseBlock_loop [] p)
       (\<lambda>(children, p1). Return (ASTNode ''Block'' [] (Line (peek p)) children, p1))"

text \<open>One test and one iteration of the loop of \<open>parseBlock\<close>; \<open>parseBlock_loop\<close> is
  the rest of the loop.  \<open>p.current >= len(p.tokens)-1\<close> is \<open>current + 1 \<ge> len\<close>.\<close>

definition parseBlock_loop_body ::
  "(Parser \<Rightarrow> (ASTNode \<times> Parser) run) \<Rightarrow>
   (ASTNode list \<Rightarrow> Parser \<Rightarrow> (ASTNode list \<times> Parser) run) \<Rightarrow>
   ASTNode list \<Rightarrow> Parser \<Rightarrow> (ASTNode list \<times> Parser) run" where
  "parseBlock_loop_body parseStatement parseBlock_loop children p =
     (if \<not> isAtEnd p \<and> \<not> check ''def'' p \<and> \<not> check ''if'' p \<and>
         \<not> checkNext ''def'' p \<and> \<not> checkNext ''if'' p
      then
        and_then (parseStatement p)
          (\<lambda>(stmt, p1).
             let (children1, p2) =
                   (if stmt \<noteq> NilNode then (children @ [stmt], p1)
                    else (children, snd (advance p1)))
             in if current p2 + 1 \<ge> length (tokens p2) then Return (children1, p2)
                else parseBlock_loop children1 p2)
      else Return (children, p))"


fun parseStatement :: "nat \<Rightarrow> Parser \<Rightarrow> (ASTNode \<times> Parser) run"
  and parseFunctionDef :: "nat \<Rightarrow> Parser \<Rightarrow> (ASTNode \<times> Parser) run"
  and parseIfStatement :: "nat \<Rightarrow> Parser \<Rightarrow> (ASTNode \<times> Parser) run"
  and parseBlock :: "nat \<Rightarrow> Parser \<Rightarrow> (ASTNode \<times> Parser) run"
  and parseBlock_loop :: "nat \<Rightarrow> ASTNode list \<Rightarrow> Parser \<Rightarrow> (ASTNode list \<times> Parser) run"
where
  "parseStatement 0 p = OutOfFuel"
| "parseStatement (Suc n) p = parseStatement_body (parseFunctionDef n) (parseIfStatement n) n p"
| "parseFunctionDef 0 p = OutOfFuel"
| "parseFunctionDef (Suc n) p = parseFunctionDef_body (parseBlock n) p"
| "parseIfStatement 0 p = OutOfFuel"
| "parseIfStatement (Suc n) p = parseIfStatement_body (parseBlock n) n p"
| "parseBlock 0 p = OutOfFuel"
| "parseBlock (Suc n) p = parseBlock_body (parseBlock_loop n) p"
| "parseBlock_loop 0 children p = OutOfFuel"
| "parseBlock_loop (Suc n) children p =
     parseBlock_loop_body (parseStatement n) (parseBlock_loop n) children p"

text \<open>\<open>parseProgram\<close> and its loop, which retries at the same token when a statement
  comes back \<open>nil\<close>.\<close>

fun parseProgram_loop :: "nat \<Rightarrow> ASTNode list \<Rightarrow> Parser \<Rightarrow> (ASTNode list \<times> Parser) run" where
  "parseProgram_loop 0 children p = OutOfFuel"
| "parseProgram_loop (Suc n) children p =
     (if \<not> isAtEnd p
      then
        and_then (parseStatement n p)
          (\<lambda>(stmt, p1).
             parseProgram_loop n (if stmt \<noteq> NilNode then children @ [stmt] else children) p1)
      else Return (children, p))"

definition parseProgram :: "nat \<Rightarrow> Parser \<Rightarrow> (ASTNode \<times> Parser) run" where
  "parseProgram n p =
     and_then (parseProgram_loop n [] p)
       (\<lambda>(children, p1). Return (ASTNode ''Program'' [] 1 children, p1))"

text \<open>\<open>getErrorLine\<close> reads the line back from the first message with
  \<open>fmt.Sscanf(errorMsg, "Error en l\<acute>inea %d:", &line)\<close>.  Every message is built by
  \<open>error\<close> above, so the scan is modelled on texts of that form: the decimal digits
  after the fixed prefix, and 0 when the prefix is not there.\<close>

definition digits_value :: "string \<Rightarrow> nat" where
  "digits_value ds = foldl (\<lambda>acc c. 10 * acc + (of_char c - 48)) 0 ds"

definition Sscanf_line :: "string \<Rightarrow> nat" where
  "Sscanf_line errorMsg =
     (if prefix (''Error en '' @ linea) errorMsg
      then digits_value (takeWhile IsDigit (drop (length (''Error en '' @ linea)) errorMsg))
      else 0)"

definition getErrorLine :: "Parser \<Rightarrow> nat" where
  "getErrorLine p =
     (case errors p of
        [] \<Rightarrow> 0
      | errorMsg # _ \<Rightarrow> if Contains errorMsg linea then Sscanf_line errorMsg else 0)"

record SyntaxResult =
  syn_AST :: ASTNode
  syn_Errors :: "string list"
  syn_Success :: bool
  syn_ErrorLine :: nat

definition parser_Analyze :: "nat \<Rightarrow> Token list \<Rightarrow> SyntaxResult run" where
  "parser_Analyze n toks =
     (let filteredTokens = filterTokens toks;
          parser = \<lparr>tokens = filteredTokens, current = 0, errors = [], indent = 0\<rparr>
      in and_then (parseProgram n parser)
           (\<lambda>(ast, p). Return \<lparr>syn_AST = ast, syn_Errors = errors p,
                                syn_Success = (length (errors p) = 0),
                                syn_ErrorLine = getErrorLine p\<rparr>))"

section \<open>The semantic checker (package semantico)\<close>

datatype VarType = IntType | StringType | BoolType | UnknownType

record Variable =
  Name :: string
  VType :: VarType
  VLine :: nat

record SemanticAnalyzer =
  variables :: "string \<rightharpoonup> Variable"
  sa_errors :: "string list"
  sa_tokens :: "Token list"

record SemanticResult =
  sem_Errors :: "string list"
  sem_Variables :: "string \<rightharpoonup> Variable"
  sem_TypeMismatches :: "string list"
  sem_Success :: bool

definition addError :: "nat \<Rightarrow> string \<Rightarrow> SemanticAnalyzer \<Rightarrow> SemanticAnalyzer" where
  "addError line message sa =
     sa\<lparr>sa_errors := sa_errors sa @
            [''Error sem'' @ a_acute @ ''ntico en '' @ linea @ fmt_d line @ '': '' @ message]\<rparr>"

fun inferType :: "SemanticAnalyzer \<Rightarrow> ASTNode \<Rightarrow> VarType" where
  "inferType sa NilNode = UnknownType"
| "inferType sa (ASTNode ty val line children) =
     (if ty = ''Number'' then IntType
      else if ty = ''String'' then StringType
      else if ty = ''Identifier'' then
        (case variables sa val of Some variable \<Rightarrow> VType variable | None \<Rightarrow> UnknownType)
      else if ty = ''BinaryOp'' then
        (if val = ''>'' \<or> val = ''<'' \<or> val = ''>='' \<or> val = ''<='' \<or> val = ''=='' \<or> val = ''!=''
         then BoolType
         else
           (case children of
              l # r # _ \<Rightarrow>
                (if inferType sa l = IntType \<and> inferType sa r = IntType then IntType
                 else if inferType sa l = StringType \<or> inferType sa r = StringType then StringType
                 else UnknownType)
            | _ \<Rightarrow> UnknownType))
      else if ty = ''MethodCall'' then
        (if Contains val ''.lower'' then StringType else UnknownType)
      else if ty = ''FunctionCall'' then UnknownType
      else UnknownType)"

definition check_relational :: "nat \<Rightarrow> string \<Rightarrow> VarType \<Rightarrow> VarType \<Rightarrow> SemanticAnalyzer \<Rightarrow> SemanticAnalyzer" where
  "check_relational line operator leftType rightType sa =
     (if operator = ''>'' \<or> operator = ''<'' \<or> operator = ''>='' \<or> operator = ''<='' then
        (if leftType = StringType \<and> rightType = IntType
         then addError line (''No se puede comparar string con n'' @ u_acute @ ''mero usando '' @ sq
                @ operator @ sq) sa
         else if leftType = IntType \<and> rightType = StringType
         then addError line (''No se puede comparar n'' @ u_acute @ ''mero con string usando '' @ sq
                @ operator @ sq) sa
         else sa)
      else if operator = ''=='' \<or> operator = ''!='' then
        (if leftType = StringType \<and> rightType = IntType
         then addError line (''Comparaci'' @ o_acute @ ''n entre tipos incompatibles: string y n''
                @ u_acute @ ''mero'') sa
         else if leftType = IntType \<and> rightType = StringType
         then addError line (''Comparaci'' @ o_acute @ ''n entre tipos incompatibles: n'' @ u_acute
                @ ''mero y string'') sa
         else sa)
      else if operator = ''+'' \<or> operator = ''-'' \<or> operator = ''*'' \<or> operator = ''/'' then
        (if leftType = StringType \<or> rightType = StringType
         then (if operator \<noteq> ''+''
               then addError line (''Operador '' @ sq @ operator @ sq @ '' no v'' @ a_acute
                      @ ''lido para strings'') sa
               else sa)
         else sa)
      else sa)"

definition check_method :: "nat \<Rightarrow> string \<Rightarrow> SemanticAnalyzer \<Rightarrow> SemanticAnalyzer" where
  "check_method line funcName sa =
     (let parts = Split funcName (CHR ''.'') in
      if length parts = 2 then
        (let objectName = parts ! 0; methodName = parts ! 1 in
         case variables sa objectName of
           Some variable \<Rightarrow>
             (if VType variable = StringType \<and> methodName = ''lower'' then sa
              else if VType variable \<noteq> StringType \<and> methodName = ''lower''
              then addError line (''El m'' @ e_acute @ ''todo '' @ sq @ ''lower()'' @ sq @ '' no est''
                     @ a_acute @ '' disponible para el tipo de '' @ sq @ objectName @ sq) sa
              else sa)
         | None \<Rightarrow>
             addError line (''Variable '' @ sq @ objectName @ sq @ '' no est'' @ a_acute @ '' definida'') sa)
      else sa)"

function (sequential) analyzeNode :: "ASTNode \<Rightarrow> SemanticAnalyzer \<Rightarrow> SemanticAnalyzer"
  and analyzeChildren :: "ASTNode list \<Rightarrow> SemanticAnalyzer \<Rightarrow> SemanticAnalyzer"
  and analyzeAssignment :: "ASTNode \<Rightarrow> SemanticAnalyzer \<Rightarrow> SemanticAnalyzer"
  and analyzeIfStatement :: "ASTNode \<Rightarrow> SemanticAnalyzer \<Rightarrow> SemanticAnalyzer"
  and analyzeCondition :: "ASTNode \<Rightarrow> SemanticAnalyzer \<Rightarrow> SemanticAnalyzer"
  and analyzeBinaryOperation :: "ASTNode \<Rightarrow> SemanticAnalyzer \<Rightarrow> SemanticAnalyzer"
  and analyzeFunctionCall :: "ASTNode \<Rightarrow> SemanticAnalyzer \<Rightarrow> SemanticAnalyzer"
where
  "analyzeNode NilNode sa = sa"
| "analyzeNode (ASTNode ty val line children) sa =
     (if ty = ''Program'' then analyzeChildren children sa
      else if ty = ''FunctionDef'' then analyzeChildren children sa
      else if ty = ''Assignment'' then analyzeAssignment (ASTNode ty val line children) sa
      else if ty = ''IfStatement'' then analyzeIfStatement (ASTNode ty val line children) sa
      else if ty = ''Block'' then analyzeChildren children sa
      else if ty = ''ExpressionStatement'' then analyzeChildren children sa
      else if ty = ''BinaryOp'' then analyzeBinaryOperation (ASTNode ty val line children) sa
      else if ty = ''FunctionCall'' \<or> ty = ''MethodCall''
      then analyzeFunctionCall (ASTNode ty val line children) sa
      else analyzeChildren children sa)"
| "analyzeChildren [] sa = sa"
| "analyzeChildren (child # children) sa = analyzeChildren children (analyzeNode child sa)"
| "analyzeAssignment (ASTNode ty varName line []) sa =
     addError line (''Asignaci'' @ o_acute @ ''n sin valor'') sa"
| "analyzeAssignment (ASTNode ty varName line (valueNode # rest)) sa =
     analyzeNode valueNode
       (sa\<lparr>variables := (variables sa)
              (varName \<mapsto> \<lparr>Name = varName, VType = inferType sa valueNode, VLine = line\<rparr>)\<rparr>)"
| "analyzeIfStatement (ASTNode ty val line []) sa =
     addError line (''Declaraci'' @ o_acute @ ''n if sin condici'' @ o_acute @ ''n'') sa"
| "analyzeIfStatement (ASTNode ty val line (condition # rest)) sa =
     analyzeChildren (condition # rest) (analyzeCondition condition sa)"
| "analyzeCondition NilNode sa = sa"
| "analyzeCondition (ASTNode ty val line children) sa =
     (if ty = ''BinaryOp'' then analyzeBinaryOperation (ASTNode ty val line children) sa
      else analyzeNode (ASTNode ty val line children) sa)"
| "analyzeBinaryOperation (ASTNode ty operator line (leftNode # rightNode # rest)) sa =
     analyzeNode rightNode
       (analyzeNode leftNode
          (check_relational line operator (inferType sa leftNode) (inferType sa rightNode) sa))"
| "analyzeBinaryOperation (ASTNode ty operator line children) sa =
     addError line (''Operaci'' @ o_acute @ ''n binaria incompleta'') sa"
| "analyzeFunctionCall (ASTNode ty funcName line children) sa =
     analyzeChildren children
       (if Contains funcName ''.'' then check_method line funcName sa
        else if funcName = ''print'' then analyzeChildren children sa
        else sa)"
  by pat_completeness (auto split del: if_split)
termination
  apply (relation "measure (\<lambda>x. case x of
       Inl (Inl (n, sa)) \<Rightarrow> 2 * size n + 1
     | Inl (Inr (Inl (cs, sa))) \<Rightarrow> 2 * size_list size cs
     | Inl (Inr (Inr (n, sa))) \<Rightarrow> 2 * size n
     | Inr (Inl (Inl (n, sa))) \<Rightarrow> 2 * size n
     | Inr (Inl (Inr (n, sa))) \<Rightarrow> 2 * size n + 2
     | Inr (Inr (Inl (n, sa))) \<Rightarrow> 2 * size n
     | Inr (Inr (Inr (n, sa))) \<Rightarrow> 2 * size n)")
  apply simp_all
  done


declare analyzeNode.simps [simp del]

definition getTypeMismatches :: "SemanticAnalyzer \<Rightarrow> string list" where
  "getTypeMismatches sa =
     filter (\<lambda>err. Contains err ''comparar'' \<or> Contains err (''Comparaci'' @ o_acute @ ''n''))
       (sa_errors sa)"

definition semantico_Analyze :: "Token list \<Rightarrow> ASTNode \<Rightarrow> SemanticResult" where
  "semantico_Analyze toks ast =
     (let analyzer0 = \<lparr>variables = Map.empty, sa_errors = [], sa_tokens = toks\<rparr>;
          analyzer = (if ast \<noteq> NilNode then analyzeNode ast analyzer0 else analyzer0)
      in \<lparr>sem_Errors = sa_errors analyzer,
          sem_Variables = variables analyzer,
          sem_TypeMismatches = getTypeMismatches analyzer,
          sem_Success = (length (sa_errors analyzer) = 0)\<rparr>)"

section \<open>The request handler (package main)\<close>

text \<open>The part of \<open>analyzeCode\<close> between the decoded request and the encoded response.
  \<open>%v\<close> prints a slice of strings between brackets, separated by spaces.\<close>

record AnalysisResponse =
  LexicalAnalysis :: LexicalResult
  SyntaxAnalysis :: SyntaxResult
  SemanticAnalysis :: SemanticResult
  Success :: bool
  Error :: string

fun join_space :: "string list \<Rightarrow> string" where
  "join_space [] = []"
| "join_space [s] = s"
| "join_space (s # ss) = s @ '' '' @ join_space ss"

definition fmt_v :: "string list \<Rightarrow> string" where
  "fmt_v ss = ''['' @ join_space ss @ '']''"

definition analyzeCode :: "nat \<Rightarrow> string \<Rightarrow> AnalysisResponse run" where
  "analyzeCode n code =
     (let lexicalResult = lexer_Analyze code in
      and_then (parser_Analyze n (Tokens lexicalResult))
        (\<lambda>syntaxResult.
           let semanticResult = semantico_Analyze (Tokens lexicalResult) (syn_AST syntaxResult);
               response = \<lparr>LexicalAnalysis = lexicalResult,
                            SyntaxAnalysis = syntaxResult,
                            SemanticAnalysis = semanticResult,
                            Success = (length (syn_Errors syntaxResult) = 0 \<and>
                                       length (sem_Errors semanticResult) = 0),
                            Error = []\<rparr>
           in Return
                (if length (syn_Errors syntaxResult) > 0
                 then response\<lparr>Error := ''Errores de sintaxis: '' @ fmt_v (syn_Errors syntaxResult)\<rparr>
                 else if length (sem_Errors semanticResult) > 0
                 then response\<lparr>Error := ''Errores sem'' @ a_acute @ ''nticos: ''
                                    @ fmt_v (sem_Errors semanticResult)\<rparr>
                 else response)))"

section \<open>Properties of the scanner\<close>

subsection \<open>Numbers and the second dot\<close>

lemma IsDigit_not_dot: "IsDigit c \<Longrightarrow> c \<noteq> CHR ''.''"
  by (auto simp: IsDigit_def)

lemma processNumber_loop_digits:
  "\<forall>c\<in>set ds. IsDigit c \<Longrightarrow>
   processNumber_loop (pre @ ds @ post) (length pre) d =
   processNumber_loop (pre @ ds @ post) (length pre + length ds) d"
proof (induction ds arbitrary: pre)
  case Nil
  show ?case by simp
next
  case (Cons c cs)
  have c: "IsDigit c" and cs: "\<forall>c\<in>set cs. IsDigit c"
    using Cons.prems by simp_all
  have "processNumber_loop (pre @ (c # cs) @ post) (length pre) d =
        processNumber_loop (pre @ (c # cs) @ post) (length pre + 1) d"
    using c IsDigit_not_dot [OF c] by (subst processNumber_loop.simps) simp
  also have "\<dots> = processNumber_loop ((pre @ [c]) @ cs @ post) (length (pre @ [c])) d"
    by simp
  also have "\<dots> = processNumber_loop ((pre @ [c]) @ cs @ post) (length (pre @ [c]) + length cs) d"
    by (rule Cons.IH [OF cs])
  finally show ?case by simp
qed

lemma processNumber_loop_second_dot:
  assumes d1: "\<forall>c\<in>set ds1. IsDigit c" and d2: "\<forall>c\<in>set ds2. IsDigit c"
  shows "processNumber_loop (ds1 @ ''.'' @ ds2 @ ''.'' @ rest) 0 False = length ds1 + 1 + length ds2"
proof -
  let ?t = "ds1 @ ''.'' @ ds2 @ ''.'' @ rest"
  have "processNumber_loop ?t 0 False = processNumber_loop ?t (length ds1) False"
    using processNumber_loop_digits [OF d1, of "[]" "''.'' @ ds2 @ ''.'' @ rest" False] by simp
  also have "\<dots> = processNumber_loop ?t (length ds1 + 1) True"
    by (subst processNumber_loop.simps) simp
  also have "\<dots> = processNumber_loop ((ds1 @ ''.'') @ ds2 @ ''.'' @ rest) (length (ds1 @ ''.'')) True"
    by simp
  also have "\<dots> = processNumber_loop ((ds1 @ ''.'') @ ds2 @ ''.'' @ rest) (length (ds1 @ ''.'') + length ds2) True"
    by (rule processNumber_loop_digits [OF d2])
  also have "\<dots> = length ds1 + 1 + length ds2"
    by (subst processNumber_loop.simps) (simp add: nth_append)
  finally show ?thesis .
qed

lemma processSymbol_dot:
  "processSymbol (CHR ''.'' # rest) line column =
     (\<lparr>Type = SYMBOL, Value = ''.'', Line = line, Column = column\<rparr>, 1)"
  by (cases rest) (auto simp: processSymbol_def pythonSymbols_def fmt_c_def Let_def)

subsection \<open>Unterminated strings\<close>

text \<open>The specification's wording of the string rule, as a predicate on the text after
  the opening quote: a matching quote is reached, where a backslash consumes the
  character after it.\<close>

fun has_closing_quote :: "char \<Rightarrow> string \<Rightarrow> bool" where
  "has_closing_quote q [] = False"
| "has_closing_quote q [c] = (c = q)"
| "has_closing_quote q (c # c' # cs) =
     (if c = q then True
      else if c = CHR 0x5C then has_closing_quote q cs
      else has_closing_quote q (c' # cs))"

lemma processString_loop_closing:
  "(processString_loop t i q < length t) = has_closing_quote q (drop i t)"
proof (induction t i q rule: processString_loop.induct)
  case (1 t i q)
  show ?case
  proof (cases "i < length t")
    case False
    then show ?thesis by (subst processString_loop.simps) simp
  next
    case True
    note i = True
    show ?thesis
    proof (cases "Suc i < length t")
      case False
      with i have d: "drop i t = [t ! i]"
        by (metis Cons_nth_drop_Suc drop_all not_less)
      show ?thesis
        using i False d 
        by (subst processString_loop.simps, subst (2) processString_loop.simps)
          (auto simp: processString_loop.simps [of t "Suc i"] processString_loop.simps [of t "Suc (Suc i)"])
    next
      case True
      have d: "drop i t = t ! i # t ! Suc i # drop (Suc (Suc i)) t"
        using i True by (simp add: Cons_nth_drop_Suc)
      have d1: "drop (Suc i) t = t ! Suc i # drop (Suc (Suc i)) t"
        using True by (simp add: Cons_nth_drop_Suc)
      show ?thesis
        using i True d d1 "1.IH"
        by (subst processString_loop.simps) (auto simp: numeral_2_eq_2)
    qed
  qed
qed

subsection \<open>Token order\<close>

definition tok_lt :: "Token \<Rightarrow> Token \<Rightarrow> bool" where
  "tok_lt a b = (Line a < Line b \<or> (Line a = Line b \<and> Column a < Column b))"

lemma Tokens_addToken: "Tokens (addToken r t) = Tokens r @ [t]"
  by (cases "Type t") (simp_all add: addToken_def Let_def)

lemma Errors_addToken: "Errors (addToken r t) = Errors r"
  by (cases "Type t") (simp_all add: addToken_def Let_def)

lemma processString_pos: "Line (fst (processString t l c q)) = l \<and> Column (fst (processString t l c q)) = c"
  by (simp add: processString_def Let_def)
lemma processNumber_pos: "Line (fst (processNumber t l c)) = l \<and> Column (fst (processNumber t l c)) = c"
  by (simp add: processNumber_def Let_def)
lemma processIdentifier_pos: "Line (fst (processIdentifier t l c)) = l \<and> Column (fst (processIdentifier t l c)) = c"
  by (simp add: processIdentifier_def Let_def)
lemma processSymbol_pos: "Line (fst (processSymbol t l c)) = l \<and> Column (fst (processSymbol t l c)) = c"
  by (simp add: processSymbol_def Let_def)

definition before :: "nat \<Rightarrow> nat \<Rightarrow> Token \<Rightarrow> bool" where
  "before l c t = (Line t < l \<or> (Line t = l \<and> Column t < c))"

lemma before_mono: "before l c t \<Longrightarrow> c \<le> c' \<Longrightarrow> before l c' t"
  by (auto simp: before_def)

lemma sorted_snoc:
  assumes "sorted_wrt tok_lt ts" "\<forall>t\<in>set ts. before l c t" "Line x = l" "Column x = c" "c < c'"
  shows "sorted_wrt tok_lt (ts @ [x]) \<and> (\<forall>t\<in>set (ts @ [x]). before l c' t)"
  using assms by (auto simp: sorted_wrt_append tok_lt_def before_def)

lemma processLine_loop_sorted:
  "sorted_wrt tok_lt (Tokens r) \<Longrightarrow> \<forall>t\<in>set (Tokens r). before lineNum column t \<Longrightarrow>
   sorted_wrt tok_lt (Tokens (processLine_loop line lineNum i column r)) \<and>
   (\<forall>t\<in>set (Tokens (processLine_loop line lineNum i column r)). Line t \<le> lineNum)"
proof (induction line lineNum i column r rule: processLine_loop.induct)
  case (1 line lineNum i column r)
  note s = "1.prems"(1) and b = "1.prems"(2)
  have le: "\<forall>t\<in>set (Tokens r). Line t \<le> lineNum"
    using b by (auto simp: before_def)
  show ?case
  proof (cases "i < length line")
    case False
    then show ?thesis using s le by (subst processLine_loop.simps, subst (2) processLine_loop.simps) simp
  next
    case True
    note i = True
    have ne: "drop i line \<noteq> []" and hd: "drop i line ! 0 = line ! i"
      using i by simp_all
    consider (space) "IsSpace (line ! i)"
      | (comment) "\<not> IsSpace (line ! i)" "line ! i = CHR ''#''"
      | (str) "\<not> IsSpace (line ! i)" "line ! i \<noteq> CHR ''#''" "line ! i = CHR 0x22 \<or> line ! i = CHR 0x27"
      | (num) "\<not> IsSpace (line ! i)" "line ! i \<noteq> CHR ''#''" "\<not> (line ! i = CHR 0x22 \<or> line ! i = CHR 0x27)"
          "IsDigit (line ! i)"
      | (ident) "\<not> IsSpace (line ! i)" "line ! i \<noteq> CHR ''#''" "\<not> (line ! i = CHR 0x22 \<or> line ! i = CHR 0x27)"
          "\<not> IsDigit (line ! i)" "IsLetter (line ! i) \<or> line ! i = CHR ''_''"
      | (sym) "\<not> IsSpace (line ! i)" "line ! i \<noteq> CHR ''#''" "\<not> (line ! i = CHR 0x22 \<or> line ! i = CHR 0x27)"
          "\<not> IsDigit (line ! i)" "\<not> (IsLetter (line ! i) \<or> line ! i = CHR ''_'')"
      by blast
    then show ?thesis
    proof cases
      case space
      have "\<forall>t\<in>set (Tokens r). before lineNum (column + 1) t"
        using b before_mono by fastforce
      from "1.IH"(1) [OF i space s this] show ?thesis
        using i space by (subst processLine_loop.simps, subst (2) processLine_loop.simps) simp
    next
      case comment
      then show ?thesis using i s le
        by (subst processLine_loop.simps, subst (2) processLine_loop.simps) simp
    next
      case str
      let ?p = "processString (drop i line) lineNum column (line ! i)"
      have pos: "0 < snd ?p" by (rule processString_length_pos [OF ne])
      have "sorted_wrt tok_lt (Tokens r @ [fst ?p]) \<and>
            (\<forall>t\<in>set (Tokens r @ [fst ?p]). before lineNum (column + snd ?p) t)"
        using sorted_snoc [OF s b, of "fst ?p" "column + snd ?p"] processString_pos pos by simp
      then have "sorted_wrt tok_lt (Tokens (addToken r (fst ?p)))"
        and "\<forall>t\<in>set (Tokens (addToken r (fst ?p))). before lineNum (column + snd ?p) t"
        by (simp_all add: Tokens_addToken)
      from "1.IH"(2) [OF i str this] show ?thesis
        using i str by (subst processLine_loop.simps, subst (2) processLine_loop.simps) simp
    next
      case num
      let ?p = "processNumber (drop i line) lineNum column"
      have pos: "0 < snd ?p" using processNumber_length_pos [OF ne] hd num by simp
      have "sorted_wrt tok_lt (Tokens r @ [fst ?p]) \<and>
            (\<forall>t\<in>set (Tokens r @ [fst ?p]). before lineNum (column + snd ?p) t)"
        using sorted_snoc [OF s b, of "fst ?p" "column + snd ?p"] processNumber_pos pos by simp
      then have "sorted_wrt tok_lt (Tokens (addToken r (fst ?p)))"
        and "\<forall>t\<in>set (Tokens (addToken r (fst ?p))). before lineNum (column + snd ?p) t"
        by (simp_all add: Tokens_addToken)
      from "1.IH"(3) [OF i num this] show ?thesis
        using i num by (subst processLine_loop.simps, subst (2) processLine_loop.simps) simp
    next
      case ident
      let ?p = "processIdentifier (drop i line) lineNum column"
      have pos: "0 < snd ?p" using processIdentifier_length_pos [OF ne] hd ident by simp
      have "sorted_wrt tok_lt (Tokens r @ [fst ?p]) \<and>
            (\<forall>t\<in>set (Tokens r @ [fst ?p]). before lineNum (column + snd ?p) t)"
        using sorted_snoc [OF s b, of "fst ?p" "column + snd ?p"] processIdentifier_pos pos by simp
      then have "sorted_wrt tok_lt (Tokens (addToken r (fst ?p)))"
        and "\<forall>t\<in>set (Tokens (addToken r (fst ?p))). before lineNum (column + snd ?p) t"
        by (simp_all add: Tokens_addToken)
      from "1.IH"(4) [OF i ident this] show ?thesis
        using i ident by (subst processLine_loop.simps, subst (2) processLine_loop.simps) simp
    next
      case sym
      let ?p = "processSymbol (drop i line) lineNum column"
      let ?r = "if Type (fst ?p) = ERROR
                 then r\<lparr>Errors := Errors r @ [unrecognized_msg (line ! i) lineNum column]\<rparr>
                 else r"
      have tr: "Tokens ?r = Tokens r" by simp
      have pos: "0 < snd ?p" by (rule processSymbol_length_pos)
      have "sorted_wrt tok_lt (Tokens r @ [fst ?p]) \<and>
            (\<forall>t\<in>set (Tokens r @ [fst ?p]). before lineNum (column + snd ?p) t)"
        using sorted_snoc [OF s b, of "fst ?p" "column + snd ?p"] processSymbol_pos pos by simp
      then have "sorted_wrt tok_lt (Tokens (addToken ?r (fst ?p)))"
        and "\<forall>t\<in>set (Tokens (addToken ?r (fst ?p))). before lineNum (column + snd ?p) t"
        unfolding Tokens_addToken tr by simp_all
      from "1.IH"(5) [OF i sym this] show ?thesis
        using i sym by (subst processLine_loop.simps, subst (2) processLine_loop.simps) simp
    qed
  qed
qed

lemma lexer_Analyze_loop_sorted:
  "sorted_wrt tok_lt (Tokens r) \<Longrightarrow> \<forall>t\<in>set (Tokens r). Line t \<le> lineNum \<Longrightarrow>
   sorted_wrt tok_lt (Tokens (lexer_Analyze_loop lines lineNum r))"
proof (induction lines arbitrary: lineNum r)
  case Nil
  then show ?case by simp
next
  case (Cons line lines)
  have "\<forall>t\<in>set (Tokens r). before (lineNum + 1) 1 t"
    using Cons.prems(2) by (auto simp: before_def)
  from processLine_loop_sorted [OF Cons.prems(1) this, of line 0]
  show ?case
    using Cons.IH [of "processLine r line (lineNum + 1)" "lineNum + 1"]
    by (simp add: processLine_def)
qed

lemma lexer_Analyze_sorted: "sorted_wrt tok_lt (Tokens (lexer_Analyze code))"
  using lexer_Analyze_loop_sorted [of LexicalResult_init 0 "Split code (CHR 0x0A)"]
  by (simp add: lexer_Analyze_def Let_def LexicalResult_init_def)


lemma IsDigit_not_other:
  "IsDigit c \<Longrightarrow> \<not> IsSpace c \<and> c \<noteq> CHR ''#'' \<and> c \<noteq> CHR 0x22 \<and> c \<noteq> CHR 0x27"
  by (auto simp: IsDigit_def IsSpace_def)

lemma dot_class:
  "\<not> IsSpace (CHR ''.'') \<and> \<not> IsDigit (CHR ''.'') \<and> \<not> IsLetter (CHR ''.'')"
  by (simp add: IsDigit_def IsSpace_def IsLetter_def)

lemma quote_not_space: "c = CHR 0x22 \<or> c = CHR 0x27 \<Longrightarrow> \<not> IsSpace c \<and> c \<noteq> CHR ''#''"
  by (auto simp: IsSpace_def)

lemma processLine_loop_end: "processLine_loop line lineNum (length line) column r = r"
  by (subst processLine_loop.simps) simp

subsection \<open>Reaching a quote, and the errors that are diagnosed\<close>

text \<open>The places where the scan of a line stands: the states \<open>(i, column, r)\<close> at which
  the loop of \<open>processLine\<close>, started on \<open>r0\<close>, tests its condition.\<close>

inductive stands_at :: "string \<Rightarrow> nat \<Rightarrow> LexicalResult \<Rightarrow> nat \<Rightarrow> nat \<Rightarrow> LexicalResult \<Rightarrow> bool"
  for line :: string and lineNum :: nat and r0 :: LexicalResult where
  at_start: "stands_at line lineNum r0 0 1 r0"
| after_space:
    "\<lbrakk>stands_at line lineNum r0 i column r; i < length line; IsSpace (line ! i)\<rbrakk>
     \<Longrightarrow> stands_at line lineNum r0 (i + 1) (column + 1) r"
| after_string:
    "\<lbrakk>stands_at line lineNum r0 i column r; i < length line; \<not> IsSpace (line ! i);
      line ! i \<noteq> CHR ''#''; line ! i = CHR 0x22 \<or> line ! i = CHR 0x27\<rbrakk>
     \<Longrightarrow> stands_at line lineNum r0
           (i + snd (processString (drop i line) lineNum column (line ! i)))
           (column + snd (processString (drop i line) lineNum column (line ! i)))
           (addToken r (fst (processString (drop i line) lineNum column (line ! i))))"
| after_number:
    "\<lbrakk>stands_at line lineNum r0 i column r; i < length line; \<not> IsSpace (line ! i);
      line ! i \<noteq> CHR ''#''; \<not> (line ! i = CHR 0x22 \<or> line ! i = CHR 0x27); IsDigit (line ! i)\<rbrakk>
     \<Longrightarrow> stands_at line lineNum r0
           (i + snd (processNumber (drop i line) lineNum column))
           (column + snd (processNumber (drop i line) lineNum column))
           (addToken r (fst (processNumber (drop i line) lineNum column)))"
| after_identifier:
    "\<lbrakk>stands_at line lineNum r0 i column r; i < length line; \<not> IsSpace (line ! i);
      line ! i \<noteq> CHR ''#''; \<not> (line ! i = CHR 0x22 \<or> line ! i = CHR 0x27); \<not> IsDigit (line ! i);
      IsLetter (line ! i) \<or> line ! i = CHR ''_''\<rbrakk>
     \<Longrightarrow> stands_at line lineNum r0
           (i + snd (processIdentifier (drop i line) lineNum column))
           (column + snd (processIdentifier (drop i line) lineNum column))
           (addToken r (fst (processIdentifier (drop i line) lineNum column)))"
| after_symbol:
    "\<lbrakk>stands_at line lineNum r0 i column r; i < length line; \<not> IsSpace (line ! i);
      line ! i \<noteq> CHR ''#''; \<not> (line ! i = CHR 0x22 \<or> line ! i = CHR 0x27); \<not> IsDigit (line ! i);
      \<not> (IsLetter (line ! i) \<or> line ! i = CHR ''_'')\<rbrakk>
     \<Longrightarrow> stands_at line lineNum r0
           (i + snd (processSymbol (drop i line) lineNum column))
           (column + snd (processSymbol (drop i line) lineNum column))
           (addToken
              (if Type (fst (processSymbol (drop i line) lineNum column)) = ERROR
               then r\<lparr>Errors := Errors r @ [unrecognized_msg (line ! i) lineNum column]\<rparr>
               else r)
              (fst (processSymbol (drop i line) lineNum column)))"

lemma stands_at_loop:
  "stands_at line lineNum r0 i column r \<Longrightarrow>
   processLine_loop line lineNum 0 1 r0 = processLine_loop line lineNum i column r"
proof (induction rule: stands_at.induct)
  case at_start
  show ?case by simp
next
  case (after_space i column r)
  then show ?case
    by (simp add: processLine_loop.simps [of line lineNum i column r])
next
  case (after_string i column r)
  then show ?case
    by (simp add: processLine_loop.simps [of line lineNum i column r])
next
  case (after_number i column r)
  then show ?case
    by (simp add: processLine_loop.simps [of line lineNum i column r])
next
  case (after_identifier i column r)
  then show ?case
    by (simp add: processLine_loop.simps [of line lineNum i column r])
next
  case (after_symbol i column r)
  then show ?case
    by (simp add: processLine_loop.simps [of line lineNum i column r])
qed

lemma stands_at_column: "stands_at line lineNum r0 i column r \<Longrightarrow> column = i + 1"
  by (induction rule: stands_at.induct) simp_all

text \<open>An Error token that came with a diagnostic: one whose text does not start with a
  quote.  The other Error tokens are the unterminated strings.\<close>

definition starts_with_quote :: "string \<Rightarrow> bool" where
  "starts_with_quote v = (case v of [] \<Rightarrow> False | c # _ \<Rightarrow> c = CHR 0x22 \<or> c = CHR 0x27)"

definition diagnosed :: "Token \<Rightarrow> bool" where
  "diagnosed t = (Type t = ERROR \<and> \<not> starts_with_quote (Value t))"

lemma fmt_c_not_quote:
  assumes "c \<noteq> CHR 0x22" and "c \<noteq> CHR 0x27"
  shows "\<not> starts_with_quote (fmt_c c)"
proof (cases "(of_char c :: nat) < 128")
  case True
  then show ?thesis
    using assms by (simp add: fmt_c_def starts_with_quote_def)
next
  case False
  let ?k = "192 + (of_char c :: nat) div 64"
  have "(of_char c :: nat) < 256"
    by (metis of_char_mod_256 mod_less_divisor zero_less_numeral)
  then have "(of_char c :: nat) div 64 < 4"
    by (simp add: div_less_iff_less_mult)
  then have k: "192 \<le> ?k" "?k < 256"
    by simp_all
  have ek: "(of_char (char_of ?k :: char) :: nat) = ?k"
    using k by simp
  have far: "(char_of ?k :: char) \<noteq> q" if q: "(of_char q :: nat) < 192" for q :: char
  proof
    assume "char_of ?k = q"
    then have "(of_char (char_of ?k :: char) :: nat) = of_char q"
      by (rule arg_cong)
    with ek k q show False
      by linarith
  qed
  have "(char_of ?k :: char) \<noteq> CHR 0x22" and "(char_of ?k :: char) \<noteq> CHR 0x27"
    by (rule far, simp)+
  then show ?thesis
    using False by (simp add: fmt_c_def starts_with_quote_def Let_def)
qed

lemma processString_not_diagnosed:
  assumes "str \<noteq> []" and "str ! 0 = CHR 0x22 \<or> str ! 0 = CHR 0x27"
  shows "\<not> diagnosed (fst (processString str l c q))"
  using assms by (cases str) (auto simp: processString_def Let_def diagnosed_def starts_with_quote_def)

lemma processNumber_not_diagnosed: "\<not> diagnosed (fst (processNumber text l c))"
  by (simp add: processNumber_def Let_def diagnosed_def)

lemma processIdentifier_not_diagnosed: "\<not> diagnosed (fst (processIdentifier text l c))"
  by (simp add: processIdentifier_def Let_def diagnosed_def)

lemma processSymbol_diagnosed:
  assumes "text ! 0 \<noteq> CHR 0x22" and "text ! 0 \<noteq> CHR 0x27"
  shows "diagnosed (fst (processSymbol text l c)) = (Type (fst (processSymbol text l c)) = ERROR)"
  using fmt_c_not_quote [OF assms] by (simp add: processSymbol_def Let_def diagnosed_def)

definition counted :: "LexicalResult \<Rightarrow> bool" where
  "counted r = (length (Errors r) = length (filter diagnosed (Tokens r)))"

lemma counted_addToken:
  "counted r \<Longrightarrow> \<not> diagnosed t \<Longrightarrow> counted (addToken r t)"
  by (simp add: counted_def Tokens_addToken Errors_addToken)

lemma counted_addToken_symbol:
  "counted r \<Longrightarrow> diagnosed t = (Type t = ERROR) \<Longrightarrow>
   counted (addToken (if Type t = ERROR then r\<lparr>Errors := Errors r @ [m]\<rparr> else r) t)"
  by (simp add: counted_def Tokens_addToken Errors_addToken)

lemma processLine_loop_counted:
  "counted r \<Longrightarrow> counted (processLine_loop line lineNum i column r)"
proof (induction line lineNum i column r rule: processLine_loop.induct)
  case (1 line lineNum i column r)
  note c = "1.prems"
  show ?case
  proof (cases "i < length line")
    case False
    then show ?thesis using c by (subst processLine_loop.simps) simp
  next
    case True
    note i = True
    have ne: "drop i line \<noteq> []" and hd: "drop i line ! 0 = line ! i"
      using i by simp_all
    consider (space) "IsSpace (line ! i)"
      | (comment) "\<not> IsSpace (line ! i)" "line ! i = CHR ''#''"
      | (str) "\<not> IsSpace (line ! i)" "line ! i \<noteq> CHR ''#''" "line ! i = CHR 0x22 \<or> line ! i = CHR 0x27"
      | (num) "\<not> IsSpace (line ! i)" "line ! i \<noteq> CHR ''#''" "\<not> (line ! i = CHR 0x22 \<or> line ! i = CHR 0x27)"
          "IsDigit (line ! i)"
      | (ident) "\<not> IsSpace (line ! i)" "line ! i \<noteq> CHR ''#''" "\<not> (line ! i = CHR 0x22 \<or> line ! i = CHR 0x27)"
          "\<not> IsDigit (line ! i)" "IsLetter (line ! i) \<or> line ! i = CHR ''_''"
      | (sym) "\<not> IsSpace (line ! i)" "line ! i \<noteq> CHR ''#''" "\<not> (line ! i = CHR 0x22 \<or> line ! i = CHR 0x27)"
          "\<not> IsDigit (line ! i)" "\<not> (IsLetter (line ! i) \<or> line ! i = CHR ''_'')"
      by blast
    then show ?thesis
    proof cases
      case space
      from "1.IH"(1) [OF i space c] show ?thesis
        using i space by (subst processLine_loop.simps) simp
    next
      case comment
      then show ?thesis using i c
        by (subst processLine_loop.simps) simp
    next
      case str
      have "counted (addToken r (fst (processString (drop i line) lineNum column (line ! i))))"
        using processString_not_diagnosed [OF ne, of lineNum column "line ! i"] hd str(3)
        by (intro counted_addToken [OF c]) simp
      from "1.IH"(2) [OF i str this] show ?thesis
        using i str by (subst processLine_loop.simps) simp
    next
      case num
      have "counted (addToken r (fst (processNumber (drop i line) lineNum column)))"
        by (rule counted_addToken [OF c processNumber_not_diagnosed])
      from "1.IH"(3) [OF i num this] show ?thesis
        using i num by (subst processLine_loop.simps) simp
    next
      case ident
      have "counted (addToken r (fst (processIdentifier (drop i line) lineNum column)))"
        by (rule counted_addToken [OF c processIdentifier_not_diagnosed])
      from "1.IH"(4) [OF i ident this] show ?thesis
        using i ident by (subst processLine_loop.simps) simp
    next
      case sym
      let ?p = "processSymbol (drop i line) lineNum column"
      have "diagnosed (fst ?p) = (Type (fst ?p) = ERROR)"
        using sym(3) hd by (intro processSymbol_diagnosed) simp_all
      then have "counted (addToken
                (if Type (fst ?p) = ERROR
                 then r\<lparr>Errors := Errors r @ [unrecognized_msg (line ! i) lineNum column]\<rparr>
                 else r) (fst ?p))"
        by (rule counted_addToken_symbol [OF c])
      from "1.IH"(5) [OF i sym this] show ?thesis
        using i sym by (subst processLine_loop.simps) simp
    qed
  qed
qed

lemma lexer_Analyze_loop_counted:
  "counted r \<Longrightarrow> counted (lexer_Analyze_loop lines lineNum r)"
  by (induction lines arbitrary: lineNum r) (simp_all add: processLine_def processLine_loop_counted)

lemma lexer_Analyze_counted: "counted (lexer_Analyze code)"
proof -
  have "counted LexicalResult_init"
    by (simp add: counted_def LexicalResult_init_def)
  from lexer_Analyze_loop_counted [OF this, of "Split code (CHR 0x0A)" 0] show ?thesis
    by (simp add: lexer_Analyze_def Let_def counted_def)
qed

subsection \<open>The claims about the scanner\<close>

text \<open>
  C2, as the code has it.  The claim says that the second dot of a number, scanned on
  its own, fails symbol matching and gives an Error token.  The dot is in
  \<open>pythonSymbols\<close>, so it gives a Symbol token and no diagnostic: \<open>1.2.3\<close> is the
  number \<open>1.2\<close>, the symbol \<open>.\<close> and the number \<open>3\<close>.
\<close>

theorem second_dot_error_counterexample:
  "Tokens (lexer_Analyze ''1.2.3'') =
     [\<lparr>Type = NUMBER, Value = ''1.2'', Line = 1, Column = 1\<rparr>,
      \<lparr>Type = SYMBOL, Value = ''.'', Line = 1, Column = 4\<rparr>,
      \<lparr>Type = NUMBER, Value = ''3'', Line = 1, Column = 5\<rparr>] \<and>
   Errors (lexer_Analyze ''1.2.3'') = [] \<and>
   fst (processSymbol ''.3'' 1 4) \<noteq> \<lparr>Type = ERROR, Value = ''.'', Line = 1, Column = 4\<rparr>"
  by code_simp

text \<open>
  C2 (amended): when the scanner stands on a digit and the text from there is digits, a
  dot, digits and a second dot, the Number token ends before the second dot, and the
  scanner then takes that dot as the one-character Symbol token \<open>.\<close>; neither step
  adds a diagnostic.
\<close>

theorem second_dot_symbol_token:
  assumes d1: "\<forall>c\<in>set ds1. IsDigit c" and ne: "ds1 \<noteq> []" and d2: "\<forall>c\<in>set ds2. IsDigit c"
    and line: "line = pre @ ds1 @ ''.'' @ ds2 @ ''.'' @ rest"
  shows "processNumber (ds1 @ ''.'' @ ds2 @ ''.'' @ rest) lineNum column =
           (\<lparr>Type = NUMBER, Value = ds1 @ ''.'' @ ds2, Line = lineNum, Column = column\<rparr>,
            length ds1 + 1 + length ds2) \<and>
         processLine_loop line lineNum (length pre) column r =
           processLine_loop line lineNum
             (length pre + length ds1 + 1 + length ds2 + 1) (column + length ds1 + 1 + length ds2 + 1)
             (addToken
                (addToken r \<lparr>Type = NUMBER, Value = ds1 @ ''.'' @ ds2, Line = lineNum, Column = column\<rparr>)
                \<lparr>Type = SYMBOL, Value = ''.'', Line = lineNum,
                  Column = column + length ds1 + 1 + length ds2\<rparr>) \<and>
         Errors (addToken
                (addToken r \<lparr>Type = NUMBER, Value = ds1 @ ''.'' @ ds2, Line = lineNum, Column = column\<rparr>)
                \<lparr>Type = SYMBOL, Value = ''.'', Line = lineNum,
                  Column = column + length ds1 + 1 + length ds2\<rparr>) = Errors r"
proof -
  let ?n = "length ds1 + 1 + length ds2"
  let ?num = "\<lparr>Type = NUMBER, Value = ds1 @ ''.'' @ ds2, Line = lineNum, Column = column\<rparr>"
  have num: "processNumber (ds1 @ ''.'' @ ds2 @ ''.'' @ rest) lineNum column = (?num, ?n)"
    using processNumber_loop_second_dot [OF d1 d2, of rest]
    by (simp add: processNumber_def Let_def)
  obtain c cs where ds1: "ds1 = c # cs"
    using ne by (cases ds1) auto
  have c: "IsDigit c"
    using d1 ds1 by simp
  have i: "length pre < length line" and at: "line ! length pre = c"
    and dr: "drop (length pre) line = ds1 @ ''.'' @ ds2 @ ''.'' @ rest"
    using line ds1 by (simp_all add: nth_append)
  have step1: "processLine_loop line lineNum (length pre) column r =
               processLine_loop line lineNum (length pre + ?n) (column + ?n) (addToken r ?num)"
    using i at dr IsDigit_not_other [OF c] c num
    by (subst processLine_loop.simps) simp
  define X where "X = pre @ ds1 @ ''.'' @ ds2"
  have line2: "line = X @ CHR ''.'' # rest" and len2: "length pre + ?n = length X"
    using line by (simp_all add: X_def)
  have i2: "length pre + ?n < length line"
    unfolding len2 by (simp add: line2)
  have at2: "line ! (length pre + ?n) = CHR ''.''"
    unfolding len2 line2 by (rule nth_append_length)
  have dr2: "drop (length pre + ?n) line = CHR ''.'' # rest"
    unfolding len2 line2 by simp
  have step2: "processLine_loop line lineNum (length pre + ?n) (column + ?n) (addToken r ?num) =
               processLine_loop line lineNum (length pre + ?n + 1) (column + ?n + 1)
                 (addToken (addToken r ?num)
                    \<lparr>Type = SYMBOL, Value = ''.'', Line = lineNum, Column = column + ?n\<rparr>)"
    using i2 at2 dr2 dot_class processSymbol_dot [of rest lineNum "column + ?n"]
    by (subst processLine_loop.simps) simp
  show ?thesis
    using num step1 step2 by (simp add: Errors_addToken add.assoc)
qed

theorem second_dot_symbol_token_witness:
  "processLine_loop ''1.2.3'' 1 0 1 LexicalResult_init =
     processLine_loop ''1.2.3'' 1 4 5
       (addToken
          (addToken LexicalResult_init \<lparr>Type = NUMBER, Value = ''1.2'', Line = 1, Column = 1\<rparr>)
          \<lparr>Type = SYMBOL, Value = ''.'', Line = 1, Column = 4\<rparr>)"
proof -
  have a: "\<forall>c\<in>set ''1''. IsDigit c" and b: "''1'' \<noteq> []" and c: "\<forall>c\<in>set ''2''. IsDigit c"
    and d: "''1.2.3'' = [] @ ''1'' @ ''.'' @ ''2'' @ ''.'' @ ''3''"
    by (simp_all add: IsDigit_def)
  from second_dot_symbol_token [OF a b c d, of 1 1 LexicalResult_init] show ?thesis
    by (simp add: eval_nat_numeral)
qed

lemma processLine_loop_unterminated:
  assumes i: "i < length line" and q: "line ! i = CHR 0x22 \<or> line ! i = CHR 0x27"
    and open_string: "\<not> has_closing_quote (line ! i) (drop (Suc i) line)"
  shows "processLine_loop line lineNum i column r =
           addToken r \<lparr>Type = ERROR, Value = drop i line, Line = lineNum, Column = column\<rparr>"
proof -
  let ?t = "drop i line"
  have "\<not> processString_loop ?t 1 (line ! i) < length ?t"
    using open_string processString_loop_closing [of ?t 1 "line ! i"] by simp
  then have ps: "processString ?t lineNum column (line ! i) =
             (\<lparr>Type = ERROR, Value = ?t, Line = lineNum, Column = column\<rparr>, length ?t)"
    by (simp add: processString_def Let_def)
  have "processLine_loop line lineNum i column r =
        processLine_loop line lineNum (i + length ?t) (column + length ?t)
          (addToken r \<lparr>Type = ERROR, Value = ?t, Line = lineNum, Column = column\<rparr>)"
    using i q quote_not_space [OF q] ps by (subst processLine_loop.simps) auto
  moreover have "i + length ?t = length line"
    using i by simp
  ultimately show ?thesis
    by (simp add: processLine_loop_end)
qed

text \<open>
  C6, as the claim words it, fails: a line can contain a quote character with no matching
  closing quote and give no Error token, because the scan never stands on that quote.  In
  the comment \<open># it's\<close> the quote is at index 4, nothing closes it, and the line gives no
  token at all; in \<open>"it's"\<close> the inner quote is part of a String token.
\<close>

theorem unterminated_quote_not_reached_counterexample:
  "(''# it'' @ [CHR 0x27] @ ''s'') ! 4 = CHR 0x27 \<and>
   \<not> has_closing_quote (CHR 0x27) (drop 5 (''# it'' @ [CHR 0x27] @ ''s'')) \<and>
   Tokens (lexer_Analyze (''# it'' @ [CHR 0x27] @ ''s'')) = [] \<and>
   Tokens (lexer_Analyze ([CHR 0x22] @ ''it'' @ [CHR 0x27] @ ''s'' @ [CHR 0x22])) =
     [\<lparr>Type = STRING, Value = [CHR 0x22] @ ''it'' @ [CHR 0x27] @ ''s'' @ [CHR 0x22],
        Line = 1, Column = 1\<rparr>]"
  by code_simp

text \<open>
  C6 (amended): when the scan of a line, from the start of the line, stands on a quote
  character (at byte \<open>i\<close>, so at column \<open>i + 1\<close>) and no matching quote follows before
  the end of the line (a backslash consuming the character after it), the scan of the
  line ends there with exactly one more token, an Error token whose text is the rest of
  the line, and with no more diagnostics than it had on reaching the quote.  Unterminated
  strings are the only silent error condition: in the result of every scan, the
  diagnostics are exactly as many as the Error tokens whose text does not start with a
  quote, which are the unrecognised characters.
\<close>

theorem unterminated_string_silent:
  assumes reach: "stands_at line lineNum r0 i column r"
    and i: "i < length line" and q: "line ! i = CHR 0x22 \<or> line ! i = CHR 0x27"
    and open_string: "\<not> has_closing_quote (line ! i) (drop (Suc i) line)"
  shows "processLine r0 line lineNum =
           addToken r \<lparr>Type = ERROR, Value = drop i line, Line = lineNum, Column = i + 1\<rparr> \<and>
         Tokens (processLine r0 line lineNum) =
           Tokens r @ [\<lparr>Type = ERROR, Value = drop i line, Line = lineNum, Column = i + 1\<rparr>] \<and>
         Errors (processLine r0 line lineNum) = Errors r \<and>
         length (Errors (lexer_Analyze code)) =
           length (filter diagnosed (Tokens (lexer_Analyze code)))"
proof -
  have c: "column = i + 1"
    by (rule stands_at_column [OF reach])
  have "processLine r0 line lineNum = processLine_loop line lineNum i column r"
    unfolding processLine_def by (rule stands_at_loop [OF reach])
  also have "\<dots> = addToken r \<lparr>Type = ERROR, Value = drop i line, Line = lineNum, Column = column\<rparr>"
    by (rule processLine_loop_unterminated [OF i q open_string])
  finally have "processLine r0 line lineNum =
      addToken r \<lparr>Type = ERROR, Value = drop i line, Line = lineNum, Column = i + 1\<rparr>"
    unfolding c .
  moreover have "length (Errors (lexer_Analyze code)) =
      length (filter diagnosed (Tokens (lexer_Analyze code)))"
    using lexer_Analyze_counted [of code] by (simp add: counted_def)
  ultimately show ?thesis
    by (simp add: Tokens_addToken Errors_addToken)
qed

theorem unterminated_string_silent_witness:
  "processLine LexicalResult_init (''  '' @ [CHR 0x27] @ ''ab'') 1 =
     addToken LexicalResult_init
       \<lparr>Type = ERROR, Value = [CHR 0x27] @ ''ab'', Line = 1, Column = 3\<rparr>"
proof -
  let ?l = "''  '' @ [CHR 0x27] @ ''ab''"
  have s0: "stands_at ?l 1 LexicalResult_init 0 1 LexicalResult_init"
    by (rule stands_at.at_start)
  have s1: "stands_at ?l 1 LexicalResult_init (0 + 1) (1 + 1) LexicalResult_init"
    by (rule stands_at.after_space [OF s0]) (simp_all add: IsSpace_def)
  have s2: "stands_at ?l 1 LexicalResult_init (0 + 1 + 1) (1 + 1 + 1) LexicalResult_init"
    by (rule stands_at.after_space [OF s1]) (simp_all add: IsSpace_def)
  have "0 + 1 + 1 < length ?l" and "?l ! (0 + 1 + 1) = CHR 0x22 \<or> ?l ! (0 + 1 + 1) = CHR 0x27"
    and "\<not> has_closing_quote (?l ! (0 + 1 + 1)) (drop (Suc (0 + 1 + 1)) ?l)"
    by simp_all
  from unterminated_string_silent [OF s2 this, where code = "[]"] show ?thesis
    by (simp add: eval_nat_numeral)
qed

text \<open>
  C8: in the token list of every scan, a later token is on a later line than an earlier
  one, or on the same line at a strictly greater column.
\<close>

theorem tokens_monotonic:
  assumes "i < j" and "j < length (Tokens (lexer_Analyze code))"
  shows "Line (Tokens (lexer_Analyze code) ! i) \<le> Line (Tokens (lexer_Analyze code) ! j) \<and>
         (Line (Tokens (lexer_Analyze code) ! i) = Line (Tokens (lexer_Analyze code) ! j) \<longrightarrow>
          Column (Tokens (lexer_Analyze code) ! i) < Column (Tokens (lexer_Analyze code) ! j))"
proof -
  have "tok_lt (Tokens (lexer_Analyze code) ! i) (Tokens (lexer_Analyze code) ! j)"
    using lexer_Analyze_sorted [of code] assms by (simp add: sorted_wrt_iff_nth_less)
  then show ?thesis
    by (auto simp: tok_lt_def)
qed

theorem tokens_monotonic_witness:
  "Line (Tokens (lexer_Analyze ''ab cd'') ! 0) \<le> Line (Tokens (lexer_Analyze ''ab cd'') ! 1) \<and>
   Column (Tokens (lexer_Analyze ''ab cd'') ! 0) < Column (Tokens (lexer_Analyze ''ab cd'') ! 1)"
proof -
  have toks: "Tokens (lexer_Analyze ''ab cd'') =
      [\<lparr>Type = IDENTIFIER, Value = ''ab'', Line = 1, Column = 1\<rparr>,
       \<lparr>Type = IDENTIFIER, Value = ''cd'', Line = 1, Column = 4\<rparr>]"
    by code_simp
  have "(0::nat) < 1" and "1 < length (Tokens (lexer_Analyze ''ab cd''))"
    by (simp_all add: toks)
  from tokens_monotonic [OF this] show ?thesis
    by (simp add: toks)
qed

section \<open>Properties of the semantic checker\<close>

subsection \<open>The traversal\<close>

lemmas analyze_induct =
  analyzeNode_analyzeChildren_analyzeAssignment_analyzeIfStatement_analyzeCondition_analyzeBinaryOperation_analyzeFunctionCall.induct





text \<open>A tree with no Assignment node in it: every tree that \<open>parseExpression\<close> builds.\<close>

fun no_assign :: "ASTNode \<Rightarrow> bool" where
  "no_assign NilNode = True"
| "no_assign (ASTNode ty val line children) = (ty \<noteq> ''Assignment'' \<and> list_all no_assign children)"

definition prepend_errors :: "string list \<Rightarrow> SemanticAnalyzer \<Rightarrow> SemanticAnalyzer" where
  "prepend_errors es sa = sa\<lparr>sa_errors := es @ sa_errors sa\<rparr>"

lemma kind_cases [case_names Program FunctionDef Assignment IfStatement Block ExpressionStatement
    BinaryOp Call Other]:
  assumes "ty = ''Program'' \<Longrightarrow> P" and "ty = ''FunctionDef'' \<Longrightarrow> P" and "ty = ''Assignment'' \<Longrightarrow> P"
    and "ty = ''IfStatement'' \<Longrightarrow> P" and "ty = ''Block'' \<Longrightarrow> P" and "ty = ''ExpressionStatement'' \<Longrightarrow> P"
    and "ty = ''BinaryOp'' \<Longrightarrow> P" and "ty = ''FunctionCall'' \<or> ty = ''MethodCall'' \<Longrightarrow> P"
    and "\<lbrakk>ty \<noteq> ''Program''; ty \<noteq> ''FunctionDef''; ty \<noteq> ''Assignment''; ty \<noteq> ''IfStatement'';
          ty \<noteq> ''Block''; ty \<noteq> ''ExpressionStatement''; ty \<noteq> ''BinaryOp'';
          \<not> (ty = ''FunctionCall'' \<or> ty = ''MethodCall'')\<rbrakk> \<Longrightarrow> P"
  shows P
  using assms by blast

text \<open>The switch of \<open>analyzeNode\<close>, one rule per case.\<close>

lemma analyzeNode_dispatch2:
  assumes "ty = ''Program'' \<Longrightarrow> Q (analyzeChildren cs sa) (analyzeChildren cs sa')"
    and "\<lbrakk>ty \<noteq> ''Program''; ty = ''FunctionDef''\<rbrakk> \<Longrightarrow> Q (analyzeChildren cs sa) (analyzeChildren cs sa')"
    and "\<lbrakk>ty \<noteq> ''Program''; ty \<noteq> ''FunctionDef''; ty = ''Assignment''\<rbrakk>
         \<Longrightarrow> Q (analyzeAssignment (ASTNode ty v l cs) sa) (analyzeAssignment (ASTNode ty v l cs) sa')"
    and "\<lbrakk>ty \<noteq> ''Program''; ty \<noteq> ''FunctionDef''; ty \<noteq> ''Assignment''; ty = ''IfStatement''\<rbrakk>
         \<Longrightarrow> Q (analyzeIfStatement (ASTNode ty v l cs) sa) (analyzeIfStatement (ASTNode ty v l cs) sa')"
    and "\<lbrakk>ty \<noteq> ''Program''; ty \<noteq> ''FunctionDef''; ty \<noteq> ''Assignment''; ty \<noteq> ''IfStatement'';
          ty = ''Block''\<rbrakk> \<Longrightarrow> Q (analyzeChildren cs sa) (analyzeChildren cs sa')"
    and "\<lbrakk>ty \<noteq> ''Program''; ty \<noteq> ''FunctionDef''; ty \<noteq> ''Assignment''; ty \<noteq> ''IfStatement'';
          ty \<noteq> ''Block''; ty = ''ExpressionStatement''\<rbrakk>
         \<Longrightarrow> Q (analyzeChildren cs sa) (analyzeChildren cs sa')"
    and "\<lbrakk>ty \<noteq> ''Program''; ty \<noteq> ''FunctionDef''; ty \<noteq> ''Assignment''; ty \<noteq> ''IfStatement'';
          ty \<noteq> ''Block''; ty \<noteq> ''ExpressionStatement''; ty = ''BinaryOp''\<rbrakk>
         \<Longrightarrow> Q (analyzeBinaryOperation (ASTNode ty v l cs) sa)
               (analyzeBinaryOperation (ASTNode ty v l cs) sa')"
    and "\<lbrakk>ty \<noteq> ''Program''; ty \<noteq> ''FunctionDef''; ty \<noteq> ''Assignment''; ty \<noteq> ''IfStatement'';
          ty \<noteq> ''Block''; ty \<noteq> ''ExpressionStatement''; ty \<noteq> ''BinaryOp'';
          ty = ''FunctionCall'' \<or> ty = ''MethodCall''\<rbrakk>
         \<Longrightarrow> Q (analyzeFunctionCall (ASTNode ty v l cs) sa) (analyzeFunctionCall (ASTNode ty v l cs) sa')"
    and "\<lbrakk>ty \<noteq> ''Program''; ty \<noteq> ''FunctionDef''; ty \<noteq> ''Assignment''; ty \<noteq> ''IfStatement'';
          ty \<noteq> ''Block''; ty \<noteq> ''ExpressionStatement''; ty \<noteq> ''BinaryOp'';
          \<not> (ty = ''FunctionCall'' \<or> ty = ''MethodCall'')\<rbrakk>
         \<Longrightarrow> Q (analyzeChildren cs sa) (analyzeChildren cs sa')"
  shows "Q (analyzeNode (ASTNode ty v l cs) sa) (analyzeNode (ASTNode ty v l cs) sa')"
proof (rule kind_cases [of ty])
  assume k: "ty = ''Program''"
  have eq: "\<And>s. analyzeNode (ASTNode ty v l cs) s = analyzeChildren cs s"
    by (simp add: k analyzeNode.simps)
  show ?thesis
    unfolding eq by (rule assms(1) [OF k])
next
  assume k: "ty = ''FunctionDef''"
  have eq: "\<And>s. analyzeNode (ASTNode ty v l cs) s = analyzeChildren cs s"
    by (simp add: k analyzeNode.simps)
  have n0: "ty \<noteq> ''Program''"
    by (simp_all add: k)
  show ?thesis
    unfolding eq by (rule assms(2) [OF n0 k])
next
  assume k: "ty = ''Assignment''"
  have eq: "\<And>s. analyzeNode (ASTNode ty v l cs) s = analyzeAssignment (ASTNode ty v l cs) s"
    by (simp add: k analyzeNode.simps)
  have n0: "ty \<noteq> ''Program''" and n1: "ty \<noteq> ''FunctionDef''"
    by (simp_all add: k)
  show ?thesis
    unfolding eq by (rule assms(3) [OF n0 n1 k])
next
  assume k: "ty = ''IfStatement''"
  have eq: "\<And>s. analyzeNode (ASTNode ty v l cs) s = analyzeIfStatement (ASTNode ty v l cs) s"
    by (simp add: k analyzeNode.simps)
  have n0: "ty \<noteq> ''Program''" and n1: "ty \<noteq> ''FunctionDef''" and n2: "ty \<noteq> ''Assignment''"
    by (simp_all add: k)
  show ?thesis
    unfolding eq by (rule assms(4) [OF n0 n1 n2 k])
next
  assume k: "ty = ''Block''"
  have eq: "\<And>s. analyzeNode (ASTNode ty v l cs) s = analyzeChildren cs s"
    by (simp add: k analyzeNode.simps)
  have n0: "ty \<noteq> ''Program''" and n1: "ty \<noteq> ''FunctionDef''" and n2: "ty \<noteq> ''Assignment''" and n3: "ty \<noteq> ''IfStatement''"
    by (simp_all add: k)
  show ?thesis
    unfolding eq by (rule assms(5) [OF n0 n1 n2 n3 k])
next
  assume k: "ty = ''ExpressionStatement''"
  have eq: "\<And>s. analyzeNode (ASTNode ty v l cs) s = analyzeChildren cs s"
    by (simp add: k analyzeNode.simps)
  have n0: "ty \<noteq> ''Program''" and n1: "ty \<noteq> ''FunctionDef''" and n2: "ty \<noteq> ''Assignment''" and n3: "ty \<noteq> ''IfStatement''" and n4: "ty \<noteq> ''Block''"
    by (simp_all add: k)
  show ?thesis
    unfolding eq by (rule assms(6) [OF n0 n1 n2 n3 n4 k])
next
  assume k: "ty = ''BinaryOp''"
  have eq: "\<And>s. analyzeNode (ASTNode ty v l cs) s = analyzeBinaryOperation (ASTNode ty v l cs) s"
    by (simp add: k analyzeNode.simps)
  have n0: "ty \<noteq> ''Program''" and n1: "ty \<noteq> ''FunctionDef''" and n2: "ty \<noteq> ''Assignment''" and n3: "ty \<noteq> ''IfStatement''" and n4: "ty \<noteq> ''Block''" and n5: "ty \<noteq> ''ExpressionStatement''"
    by (simp_all add: k)
  show ?thesis
    unfolding eq by (rule assms(7) [OF n0 n1 n2 n3 n4 n5 k])
next
  assume k: "ty = ''FunctionCall'' \<or> ty = ''MethodCall''"
  have eq: "\<And>s. analyzeNode (ASTNode ty v l cs) s = analyzeFunctionCall (ASTNode ty v l cs) s"
    using k by (elim disjE; simp add: analyzeNode.simps)
  have n0: "ty \<noteq> ''Program''" and n1: "ty \<noteq> ''FunctionDef''" and n2: "ty \<noteq> ''Assignment''" and n3: "ty \<noteq> ''IfStatement''" and n4: "ty \<noteq> ''Block''" and n5: "ty \<noteq> ''ExpressionStatement''" and n6: "ty \<noteq> ''BinaryOp''"
    using k by (elim disjE; simp)+
  show ?thesis
    unfolding eq by (rule assms(8) [OF n0 n1 n2 n3 n4 n5 n6 k])
next
  assume n0: "ty \<noteq> ''Program''" and n1: "ty \<noteq> ''FunctionDef''" and n2: "ty \<noteq> ''Assignment''" and n3: "ty \<noteq> ''IfStatement''" and n4: "ty \<noteq> ''Block''" and n5: "ty \<noteq> ''ExpressionStatement''" and n6: "ty \<noteq> ''BinaryOp''"
    and n7: "\<not> (ty = ''FunctionCall'' \<or> ty = ''MethodCall'')"
  have eq: "\<And>s. analyzeNode (ASTNode ty v l cs) s = analyzeChildren cs s"
    using n0 n1 n2 n3 n4 n5 n6 n7 by (simp add: analyzeNode.simps)
  show ?thesis
    unfolding eq by (rule assms(9) [OF n0 n1 n2 n3 n4 n5 n6 n7])
qed

lemma analyzeNode_dispatch:
  assumes "ty = ''Program'' \<Longrightarrow> Q (analyzeChildren cs sa)"
    and "\<lbrakk>ty \<noteq> ''Program''; ty = ''FunctionDef''\<rbrakk> \<Longrightarrow> Q (analyzeChildren cs sa)"
    and "\<lbrakk>ty \<noteq> ''Program''; ty \<noteq> ''FunctionDef''; ty = ''Assignment''\<rbrakk>
         \<Longrightarrow> Q (analyzeAssignment (ASTNode ty v l cs) sa)"
    and "\<lbrakk>ty \<noteq> ''Program''; ty \<noteq> ''FunctionDef''; ty \<noteq> ''Assignment''; ty = ''IfStatement''\<rbrakk>
         \<Longrightarrow> Q (analyzeIfStatement (ASTNode ty v l cs) sa)"
    and "\<lbrakk>ty \<noteq> ''Program''; ty \<noteq> ''FunctionDef''; ty \<noteq> ''Assignment''; ty \<noteq> ''IfStatement'';
          ty = ''Block''\<rbrakk> \<Longrightarrow> Q (analyzeChildren cs sa)"
    and "\<lbrakk>ty \<noteq> ''Program''; ty \<noteq> ''FunctionDef''; ty \<noteq> ''Assignment''; ty \<noteq> ''IfStatement'';
          ty \<noteq> ''Block''; ty = ''ExpressionStatement''\<rbrakk> \<Longrightarrow> Q (analyzeChildren cs sa)"
    and "\<lbrakk>ty \<noteq> ''Program''; ty \<noteq> ''FunctionDef''; ty \<noteq> ''Assignment''; ty \<noteq> ''IfStatement'';
          ty \<noteq> ''Block''; ty \<noteq> ''ExpressionStatement''; ty = ''BinaryOp''\<rbrakk>
         \<Longrightarrow> Q (analyzeBinaryOperation (ASTNode ty v l cs) sa)"
    and "\<lbrakk>ty \<noteq> ''Program''; ty \<noteq> ''FunctionDef''; ty \<noteq> ''Assignment''; ty \<noteq> ''IfStatement'';
          ty \<noteq> ''Block''; ty \<noteq> ''ExpressionStatement''; ty \<noteq> ''BinaryOp'';
          ty = ''FunctionCall'' \<or> ty = ''MethodCall''\<rbrakk>
         \<Longrightarrow> Q (analyzeFunctionCall (ASTNode ty v l cs) sa)"
    and "\<lbrakk>ty \<noteq> ''Program''; ty \<noteq> ''FunctionDef''; ty \<noteq> ''Assignment''; ty \<noteq> ''IfStatement'';
          ty \<noteq> ''Block''; ty \<noteq> ''ExpressionStatement''; ty \<noteq> ''BinaryOp'';
          \<not> (ty = ''FunctionCall'' \<or> ty = ''MethodCall'')\<rbrakk> \<Longrightarrow> Q (analyzeChildren cs sa)"
  shows "Q (analyzeNode (ASTNode ty v l cs) sa)"
  by (rule analyzeNode_dispatch2 [where Q = "\<lambda>a b. Q a" and sa' = sa]) (fact assms)+

definition only_errors :: "SemanticAnalyzer \<Rightarrow> SemanticAnalyzer \<Rightarrow> bool" where
  "only_errors sa sa' = (variables sa' = variables sa \<and> sa_tokens sa' = sa_tokens sa)"

lemma only_errors_refl [simp]: "only_errors sa sa"
  by (simp add: only_errors_def)

lemma only_errors_trans: "only_errors a b \<Longrightarrow> only_errors b c \<Longrightarrow> only_errors a c"
  by (simp add: only_errors_def)

lemma only_errors_addError [simp]: "only_errors sa (addError line msg sa)"
  by (simp add: only_errors_def addError_def)

lemma only_errors_check_relational [simp]:
  "only_errors sa (check_relational line operator lt rt sa)"
  by (simp add: check_relational_def)

lemma only_errors_check_method [simp]: "only_errors sa (check_method line funcName sa)"
  by (simp add: check_method_def Let_def split: option.split)

lemma expression_only_errors:
  "no_assign n \<Longrightarrow> only_errors sa (analyzeNode n sa)"
  "list_all no_assign cs \<Longrightarrow> only_errors sa1 (analyzeChildren cs sa1)"
  "analyzeAssignment n3 sa3 = analyzeAssignment n3 sa3"
  "no_assign n4 \<Longrightarrow> n4 \<noteq> NilNode \<Longrightarrow> only_errors sa4 (analyzeIfStatement n4 sa4)"
  "no_assign n5 \<Longrightarrow> only_errors sa5 (analyzeCondition n5 sa5)"
  "no_assign n6 \<Longrightarrow> n6 \<noteq> NilNode \<Longrightarrow> only_errors sa6 (analyzeBinaryOperation n6 sa6)"
  "no_assign n7 \<Longrightarrow> n7 \<noteq> NilNode \<Longrightarrow> only_errors sa7 (analyzeFunctionCall n7 sa7)"
proof (induction n sa and cs sa1 and n3 sa3 and n4 sa4 and n5 sa5 and n6 sa6 and n7 sa7
    rule: analyze_induct)
  case (2 ty val line children sa)
  from "2.prems" have a: "ty \<noteq> ''Assignment''" and c: "list_all no_assign children"
    and n: "no_assign (ASTNode ty val line children)" "ASTNode ty val line children \<noteq> NilNode"
    by simp_all
  show ?case
    by (rule analyzeNode_dispatch; (rule "2.IH"; (assumption | rule c n))?) (use a in simp)
next
  case (4 child children sa)
  from "4.prems" have c: "no_assign child" and cs: "list_all no_assign children"
    by simp_all
  from "4.IH"(1) [OF c] "4.IH"(2) [OF cs] show ?case
    by (simp add: only_errors_def)
next
  case (8 ty val line condition rest sa)
  from "8.prems" have c: "no_assign condition" and cs: "list_all no_assign (condition # rest)"
    by simp_all
  from "8.IH"(1) [OF c] "8.IH"(2) [OF cs] show ?case
    by (simp add: only_errors_def)
next
  case (10 ty val line children sa)
  show ?case
  proof (cases "ty = ''BinaryOp''")
    case True
    from "10.IH"(1) [OF True "10.prems"] True show ?thesis by simp
  next
    case False
    from "10.IH"(2) [OF False "10.prems"] False show ?thesis by simp
  qed
next
  case (11 ty operator line leftNode rightNode rest sa)
  let ?s0 = "check_relational line operator (inferType sa leftNode) (inferType sa rightNode) sa"
  from "11.prems" have l: "no_assign leftNode" and r: "no_assign rightNode"
    by simp_all
  have "only_errors sa ?s0"
    by simp
  moreover have "only_errors ?s0 (analyzeNode leftNode ?s0)"
    by (rule "11.IH"(1) [OF l])
  moreover have "only_errors (analyzeNode leftNode ?s0) (analyzeNode rightNode (analyzeNode leftNode ?s0))"
    by (rule "11.IH"(2) [OF r])
  ultimately show ?case
    by (simp add: only_errors_def)
next
  case (13 ty funcName line children sa)
  let ?s0 = "if Contains funcName ''.'' then check_method line funcName sa
        else if funcName = ''print'' then analyzeChildren children sa
             else sa"
  from "13.prems" have cs: "list_all no_assign children"
    by simp
  have "only_errors sa ?s0"
    using "13.IH"(1) [OF _ _ cs] by simp
  moreover have "only_errors ?s0 (analyzeChildren children ?s0)"
    by (rule "13.IH"(2) [OF cs])
  ultimately show ?case
    by (simp add: only_errors_def)
qed (simp_all add: analyzeNode.simps)

lemma inferType_BinaryOp:
  "inferType sa (ASTNode ''BinaryOp'' val line children) =
     (if val = ''>'' \<or> val = ''<'' \<or> val = ''>='' \<or> val = ''<='' \<or> val = ''=='' \<or> val = ''!=''
      then BoolType
      else (case children of
              l # r # _ \<Rightarrow>
                (if inferType sa l = IntType \<and> inferType sa r = IntType then IntType
                 else if inferType sa l = StringType \<or> inferType sa r = StringType then StringType
                 else UnknownType)
            | _ \<Rightarrow> UnknownType))"
  by simp

lemma inferType_Identifier:
  "inferType sa (ASTNode ''Identifier'' val line children) =
     (case variables sa val of Some variable \<Rightarrow> VType variable | None \<Rightarrow> UnknownType)"
  by simp

lemma inferType_other:
  "ty \<noteq> ''BinaryOp'' \<Longrightarrow> ty \<noteq> ''Identifier'' \<Longrightarrow>
   inferType sa (ASTNode ty val line children) = inferType sa' (ASTNode ty val line children)"
  by simp


lemma inferType_cong: "variables sa = variables sa' \<Longrightarrow> inferType sa n = inferType sa' n"
proof (induction n)
  case NilNode
  show ?case by simp
next
  case (ASTNode ty val line children)
  show ?case
  proof (cases "ty = ''BinaryOp''")
    case True
    have "\<And>c. c \<in> set children \<Longrightarrow> inferType sa c = inferType sa' c"
      using ASTNode.IH ASTNode.prems by simp
    note ih = this
    show ?thesis
    proof (cases children)
      case Nil
      then show ?thesis
        unfolding True inferType_BinaryOp by simp
    next
      case (Cons l cs1)
      note c1 = Cons
      show ?thesis
      proof (cases cs1)
        case Nil
        then show ?thesis
          unfolding True inferType_BinaryOp c1 by simp
      next
        case (Cons r rest)
        have "inferType sa l = inferType sa' l" and "inferType sa r = inferType sa' r"
          using ih c1 Cons by simp_all
        then show ?thesis
          unfolding True inferType_BinaryOp c1 Cons by simp
      qed
    qed
  next
    case False
    note nb = False
    show ?thesis
    proof (cases "ty = ''Identifier''")
      case True
      show ?thesis
        unfolding True inferType_Identifier using ASTNode.prems by simp
    next
      case False
      show ?thesis
        by (rule inferType_other [OF nb False])
    qed
  qed
qed

lemma variables_prepend [simp]: "variables (prepend_errors es sa) = variables sa"
  by (simp add: prepend_errors_def)

lemma inferType_prepend [simp]: "inferType (prepend_errors es sa) n = inferType sa n"
  by (rule inferType_cong) simp

lemma addError_prepend: "addError line msg (prepend_errors es sa) = prepend_errors es (addError line msg sa)"
  by (simp add: addError_def prepend_errors_def)

lemma check_relational_prepend:
  "check_relational line operator lt rt (prepend_errors es sa) =
   prepend_errors es (check_relational line operator lt rt sa)"
  by (simp add: check_relational_def addError_prepend)

lemma check_method_prepend:
  "check_method line funcName (prepend_errors es sa) = prepend_errors es (check_method line funcName sa)"
  by (simp add: check_method_def Let_def addError_prepend split: option.split)

lemma update_variables_prepend:
  "(prepend_errors es sa)\<lparr>variables := V\<rparr> = prepend_errors es (sa\<lparr>variables := V\<rparr>)"
  by (simp add: prepend_errors_def)

lemma analyze_prepend:
  "analyzeNode n (prepend_errors es sa) = prepend_errors es (analyzeNode n sa)"
  "analyzeChildren cs (prepend_errors es sa1) = prepend_errors es (analyzeChildren cs sa1)"
  "n3 \<noteq> NilNode \<Longrightarrow>
     analyzeAssignment n3 (prepend_errors es sa3) = prepend_errors es (analyzeAssignment n3 sa3)"
  "n4 \<noteq> NilNode \<Longrightarrow>
     analyzeIfStatement n4 (prepend_errors es sa4) = prepend_errors es (analyzeIfStatement n4 sa4)"
  "analyzeCondition n5 (prepend_errors es sa5) = prepend_errors es (analyzeCondition n5 sa5)"
  "n6 \<noteq> NilNode \<Longrightarrow>
     analyzeBinaryOperation n6 (prepend_errors es sa6) = prepend_errors es (analyzeBinaryOperation n6 sa6)"
  "n7 \<noteq> NilNode \<Longrightarrow>
     analyzeFunctionCall n7 (prepend_errors es sa7) = prepend_errors es (analyzeFunctionCall n7 sa7)"
proof (induction n sa and cs sa1 and n3 sa3 and n4 sa4 and n5 sa5 and n6 sa6 and n7 sa7
    rule: analyze_induct)
  case (2 ty val line children sa)
  have n: "ASTNode ty val line children \<noteq> NilNode"
    by simp
  show ?case
    by (rule analyzeNode_dispatch2 [where Q = "\<lambda>a b. a = prepend_errors es b"];
        rule "2.IH"; (assumption | rule n))
next
  case (10 ty val line children sa)
  show ?case
  proof (cases "ty = ''BinaryOp''")
    case True
    from "10.IH"(1) [OF True] True show ?thesis by simp
  next
    case False
    from "10.IH"(2) [OF False] False show ?thesis by simp
  qed
next
  case (13 ty funcName line children sa)
  show ?case
  proof (cases "Contains funcName ''.''")
    case True
    with "13.IH"(2) show ?thesis
      by (simp add: check_method_prepend)
  next
    case False
    note nd = False
    show ?thesis
    proof (cases "funcName = ''print''")
      case True
      with nd "13.IH"(1) [OF nd True] "13.IH"(2) show ?thesis
        by simp
    next
      case False
      with nd "13.IH"(2) show ?thesis
        by simp
    qed
  qed
qed (simp_all add: analyzeNode.simps addError_prepend check_relational_prepend update_variables_prepend)

text \<open>What the traversal of a subtree reports in a given state.\<close>

definition diagnostics :: "ASTNode \<Rightarrow> SemanticAnalyzer \<Rightarrow> string list" where
  "diagnostics n sa = sa_errors (analyzeNode n (sa\<lparr>sa_errors := []\<rparr>))"

lemma analyzeCondition_eq: "analyzeCondition n sa = analyzeNode n sa"
proof (cases n)
  case NilNode
  then show ?thesis by (simp add: analyzeNode.simps)
next
  case (ASTNode ty val line children)
  show ?thesis
  proof (cases "ty = ''BinaryOp''")
    case True
    then show ?thesis unfolding ASTNode by (simp add: analyzeNode.simps)
  next
    case False
    then show ?thesis unfolding ASTNode by simp
  qed
qed

lemma analyzeNode_expression:
  assumes "no_assign n"
  shows "analyzeNode n sa = sa\<lparr>sa_errors := sa_errors sa @ diagnostics n sa\<rparr>"
proof -
  let ?sa0 = "sa\<lparr>sa_errors := []\<rparr>"
  have sa: "sa = prepend_errors (sa_errors sa) ?sa0"
    by (simp add: prepend_errors_def)
  have "analyzeNode n sa = analyzeNode n (prepend_errors (sa_errors sa) ?sa0)"
    using sa by simp
  also have "\<dots> = prepend_errors (sa_errors sa) (analyzeNode n ?sa0)"
    by (rule analyze_prepend(1))
  finally have eq: "analyzeNode n sa = prepend_errors (sa_errors sa) (analyzeNode n ?sa0)" .
  have "only_errors ?sa0 (analyzeNode n ?sa0)"
    by (rule expression_only_errors(1) [OF assms])
  then have "variables (analyzeNode n ?sa0) = variables sa"
    and "sa_tokens (analyzeNode n ?sa0) = sa_tokens sa"
    by (simp_all add: only_errors_def)
  then show ?thesis
    unfolding eq by (simp add: prepend_errors_def diagnostics_def)
qed

lemma diagnostics_errors [simp]: "diagnostics n (sa\<lparr>sa_errors := es\<rparr>) = diagnostics n sa"
  by (simp add: diagnostics_def)


subsection \<open>Examples\<close>

text \<open>A condition with a relational mismatch, a state in which \<open>x\<close> is an Int, and the
  inputs of the specification's examples, run through the three stages.\<close>

definition ex_condition :: ASTNode where
  "ex_condition =
     ASTNode ''BinaryOp'' ''>'' 2
       [ASTNode ''Number'' ''1'' 2 [], ASTNode ''String'' (sq @ ''a'' @ sq) 2 []]"

definition SemanticAnalyzer_init :: SemanticAnalyzer where
  "SemanticAnalyzer_init = \<lparr>variables = Map.empty, sa_errors = [], sa_tokens = []\<rparr>"

definition ex_condition_msg :: string where
  "ex_condition_msg =
     ''Error sem'' @ a_acute @ ''ntico en '' @ linea @ ''2: No se puede comparar n'' @ u_acute
        @ ''mero con string usando '' @ sq @ ''>'' @ sq"

lemma ex_condition_diag: "diagnostics ex_condition SemanticAnalyzer_init = [ex_condition_msg]"
  by code_simp


lemma method_validity_example_int:
  "(case analyzeCode 20 (''x = 5'' @ [CHR 0x0A] @ ''x.lower()'') of
      Return r \<Rightarrow> Some (sem_Errors (SemanticAnalysis r)) | _ \<Rightarrow> None) =
   Some [''Error sem'' @ a_acute @ ''ntico en '' @ linea @ ''2: El m'' @ e_acute @ ''todo '' @ sq
           @ ''lower()'' @ sq @ '' no est'' @ a_acute @ '' disponible para el tipo de '' @ sq @ ''x'' @ sq]"
  by code_simp

lemma method_validity_example_string:
  "(case analyzeCode 20 (''x = '' @ sq @ ''hi'' @ sq @ [CHR 0x0A] @ ''x.lower()'') of
      Return r \<Rightarrow> Some (sem_Errors (SemanticAnalysis r)) | _ \<Rightarrow> None) = Some []"
  by code_simp




subsection \<open>The claims about the semantic checker\<close>






text \<open>
  C10: for every IfStatement node with at least one child, the first child (the
  condition) is traversed by \<open>analyzeCondition\<close>, which does what \<open>analyzeNode\<close> does,
  and then once more by the loop over all the children.  When the condition is an
  expression (no Assignment node inside it, as for every condition the parser builds),
  the first traversal only appends its diagnostics to the error list and the second
  appends the same diagnostics again.
\<close>

theorem if_condition_analysed_twice:
  "analyzeCondition condition sa = analyzeNode condition sa \<and>
   analyzeIfStatement (ASTNode ty val line (condition # rest)) sa =
     analyzeChildren rest (analyzeNode condition (analyzeCondition condition sa)) \<and>
   (no_assign condition \<longrightarrow>
      analyzeCondition condition sa = sa\<lparr>sa_errors := sa_errors sa @ diagnostics condition sa\<rparr> \<and>
      analyzeNode condition (analyzeCondition condition sa) =
        sa\<lparr>sa_errors := sa_errors sa @ diagnostics condition sa @ diagnostics condition sa\<rparr>)"
proof (intro conjI impI)
  show "analyzeCondition condition sa = analyzeNode condition sa"
    by (rule analyzeCondition_eq)
  show "analyzeIfStatement (ASTNode ty val line (condition # rest)) sa =
        analyzeChildren rest (analyzeNode condition (analyzeCondition condition sa))"
    by simp
next
  assume e: "no_assign condition"
  show 1: "analyzeCondition condition sa = sa\<lparr>sa_errors := sa_errors sa @ diagnostics condition sa\<rparr>"
    unfolding analyzeCondition_eq by (rule analyzeNode_expression [OF e])
  show "analyzeNode condition (analyzeCondition condition sa) =
        sa\<lparr>sa_errors := sa_errors sa @ diagnostics condition sa @ diagnostics condition sa\<rparr>"
    unfolding 1 by (simp add: analyzeNode_expression [OF e])
qed

theorem if_condition_analysed_twice_witness:
  "no_assign ex_condition \<and>
   analyzeNode ex_condition (analyzeCondition ex_condition SemanticAnalyzer_init) =
     SemanticAnalyzer_init\<lparr>sa_errors := [ex_condition_msg, ex_condition_msg]\<rparr>"
proof -
  have e: "no_assign ex_condition"
    by (simp add: ex_condition_def)
  have "analyzeNode ex_condition (analyzeCondition ex_condition SemanticAnalyzer_init) =
        SemanticAnalyzer_init\<lparr>sa_errors := sa_errors SemanticAnalyzer_init
          @ diagnostics ex_condition SemanticAnalyzer_init
          @ diagnostics ex_condition SemanticAnalyzer_init\<rparr>"
    using if_condition_analysed_twice [of ex_condition SemanticAnalyzer_init] e by blast
  then have "analyzeNode ex_condition (analyzeCondition ex_condition SemanticAnalyzer_init) =
        SemanticAnalyzer_init\<lparr>sa_errors := [ex_condition_msg, ex_condition_msg]\<rparr>"
    unfolding ex_condition_diag by (simp add: SemanticAnalyzer_init_def)
  with e show ?thesis
    by blast
qed


end
